theory Spec2Isabelle
  imports Main "HOL-Library.Sublist"
begin

section \<open>Trello user provisioning: the browser automation of script.py and part\_000\<close>

text \<open>
  The repository holds two variants of one workflow: class \<open>TrelloProvisioning\<close>
  (script.py, the text of \<open>trello_provisioning.py\<close>) and class
  \<open>TrelloUserProvisioning\<close> (part\_000). Both drive a Selenium browser. The browser
  is outside the program, so it is a parameter of every function: an oracle that
  answers each call from the history of the calls made before it. The program's
  own state is the pair of fields it reassigns (\<open>driver\<close>, \<open>wait\<close>) together with
  that history. Exceptions are values; every \<open>try\<close>/\<open>except\<close> of the source is a
  handler in the model.

  Python names starting with an underscore lose it (\<open>_retry_operation\<close> is
  \<open>retry_operation\<close>). Logging is not modelled, except where formatting a log
  message calls the browser. Only subclasses of \<open>Exception\<close> are modelled;
  \<open>KeyboardInterrupt\<close> and \<open>SystemExit\<close> are not.
\<close>

subsection \<open>Exceptions\<close>

datatype kind =
    Exception
  | AttributeError
  | ValueError
  | WebDriverException
  | NoSuchElementException
  | TimeoutException
  | ElementClickInterceptedException
  | StaleElementReferenceException
  | TrelloProvisioningError
  | CaptchaDetectedException

text \<open>An exception is its class and the text \<open>str(e)\<close> gives for it.\<close>

datatype exn = Exn kind string

fun kind_of :: "exn \<Rightarrow> kind" where
  "kind_of (Exn k m) = k"

fun str :: "exn \<Rightarrow> string" where
  "str (Exn k m) = m"

text \<open>
  The direct base class: the four Selenium exceptions derive from
  \<open>WebDriverException\<close>, \<open>CaptchaDetectedException\<close> from
  \<open>TrelloProvisioningError\<close> (script.py line 49), everything else from \<open>Exception\<close>.
\<close>

fun base :: "kind \<Rightarrow> kind option" where
  "base Exception = None"
| "base NoSuchElementException = Some WebDriverException"
| "base TimeoutException = Some WebDriverException"
| "base ElementClickInterceptedException = Some WebDriverException"
| "base StaleElementReferenceException = Some WebDriverException"
| "base CaptchaDetectedException = Some TrelloProvisioningError"
| "base k = Some Exception"

text \<open>\<open>issubclass\<close>: the hierarchy is two levels deep below \<open>Exception\<close>.\<close>

definition issubclass :: "kind \<Rightarrow> kind \<Rightarrow> bool" where
  "issubclass k c \<longleftrightarrow>
     k = c \<or> base k = Some c \<or> (case base k of None \<Rightarrow> False | Some b \<Rightarrow> base b = Some c)"

text \<open>Whether \<open>except c\<close> catches \<open>e\<close>.\<close>

definition isinstance :: "exn \<Rightarrow> kind \<Rightarrow> bool" where
  "isinstance e c = issubclass (kind_of e) c"

subsection \<open>The browser and the program state\<close>

type_synonym elem = nat

datatype By = ID | XPATH | CSS_SELECTOR | TAG_NAME

text \<open>
  Every call that leaves the program: the browser driver's and the elements' methods,
  \<open>time.sleep\<close> and \<open>input\<close>.
\<close>

datatype call =
    Install
  | NewChrome bool
  | SetPageLoadTimeout nat
  | ImplicitlyWait nat
  | MaximizeWindow
  | Get string
  | FindElement By string
  | FindElements By string
  | UntilPresence By string int
  | UntilLoggedIn int
  | CurrentUrl
  | ScriptClick elem
  | Click elem
  | Clear elem
  | SendKeys elem string
  | Text elem
  | Sleep nat
  | Input string
  | Quit

text \<open>
  The browser answers a call from the calls made so far: whether the call raises, and
  what it returns when it does not.
\<close>

record browser =
  fails :: "call list \<Rightarrow> call \<Rightarrow> exn option"
  elem_of :: "call list \<Rightarrow> call \<Rightarrow> elem"
  elems_of :: "call list \<Rightarrow> call \<Rightarrow> elem list"
  str_of :: "call list \<Rightarrow> call \<Rightarrow> string"

text \<open>
  \<open>driver\<close> and \<open>wait\<close> are the two fields the classes reassign after construction;
  \<open>calls\<close> is the history of the calls attempted, oldest first.
\<close>

record state =
  driver :: "unit option"
  wait :: "int option"
  calls :: "call list"

type_synonym 'a prog = "state \<Rightarrow> (exn + 'a) \<times> state"

definition ret :: "'a \<Rightarrow> 'a prog" where
  "ret x s = (Inr x, s)"

definition raise :: "exn \<Rightarrow> 'a prog" where
  "raise e s = (Inl e, s)"

definition bindE :: "'a prog \<Rightarrow> ('a \<Rightarrow> 'b prog) \<Rightarrow> 'b prog" where
  "bindE m f s = (case m s of (Inl e, s') \<Rightarrow> (Inl e, s') | (Inr x, s') \<Rightarrow> f x s')"

definition thenE :: "'a prog \<Rightarrow> 'b prog \<Rightarrow> 'b prog" where
  "thenE m n = bindE m (\<lambda>_. n)"

text \<open>\<open>try: m except Exception as e: h e\<close>; a narrower \<open>except\<close> re-raises in \<open>h\<close>.\<close>

definition tryE :: "'a prog \<Rightarrow> (exn \<Rightarrow> 'a prog) \<Rightarrow> 'a prog" where
  "tryE m h s = (case m s of (Inl e, s') \<Rightarrow> h e s' | (Inr x, s') \<Rightarrow> (Inr x, s'))"

text \<open>\<open>try: m except c: h\<close>, for one exception class.\<close>

definition except :: "'a prog \<Rightarrow> kind \<Rightarrow> (exn \<Rightarrow> 'a prog) \<Rightarrow> 'a prog" where
  "except m c h = tryE m (\<lambda>e. if isinstance e c then h e else raise e)"

text \<open>A call is recorded when it is attempted, whether or not it raises.\<close>

definition perform :: "browser \<Rightarrow> (call list \<Rightarrow> call \<Rightarrow> 'a) \<Rightarrow> call \<Rightarrow> 'a prog" where
  "perform B result c s =
     ((case fails B (calls s) c of
         Some e \<Rightarrow> Inl e
       | None \<Rightarrow> Inr (result (calls s) c)),
      s\<lparr>calls := calls s @ [c]\<rparr>)"

definition no_result :: "call list \<Rightarrow> call \<Rightarrow> unit" where
  "no_result h c = ()"

text \<open>A method of \<open>self.driver\<close>: on \<open>None\<close> the attribute lookup fails.\<close>

definition on_driver :: "browser \<Rightarrow> (call list \<Rightarrow> call \<Rightarrow> 'a) \<Rightarrow> call \<Rightarrow> 'a prog" where
  "on_driver B result c s =
     (case driver s of
        None \<Rightarrow> raise (Exn AttributeError ''NoneType object has no attribute'') s
      | Some d \<Rightarrow> perform B result c s)"

text \<open>
  A method of \<open>self.wait\<close>, the \<open>WebDriverWait\<close> whose timeout the field \<open>wait\<close>
  holds; the call carries that timeout.
\<close>

definition on_wait ::
  "browser \<Rightarrow> (call list \<Rightarrow> call \<Rightarrow> 'a) \<Rightarrow> (int \<Rightarrow> call) \<Rightarrow> 'a prog" where
  "on_wait B result c s =
     (case wait s of
        None \<Rightarrow> raise (Exn AttributeError ''NoneType object has no attribute'') s
      | Some t \<Rightarrow> perform B result (c t) s)"

text \<open>\<open>time.sleep\<close> returns after the delay and does not raise.\<close>

definition sleep :: "nat \<Rightarrow> unit prog" where
  "sleep d s = (Inr (), s\<lparr>calls := calls s @ [Sleep d]\<rparr>)"

definition find_element :: "browser \<Rightarrow> By \<Rightarrow> string \<Rightarrow> elem prog" where
  "find_element B b v = on_driver B (elem_of B) (FindElement b v)"

definition find_elements :: "browser \<Rightarrow> By \<Rightarrow> string \<Rightarrow> elem list prog" where
  "find_elements B b v = on_driver B (elems_of B) (FindElements b v)"

subsection \<open>Decimal numbers in messages\<close>

fun string_of_nat :: "nat \<Rightarrow> string" where
  "string_of_nat n =
     (if n < 10 then [''0123456789'' ! n]
      else string_of_nat (n div 10) @ [''0123456789'' ! (n mod 10)])"

declare string_of_nat.simps [simp del]

subsection \<open>script.py: the configuration of a \<open>TrelloProvisioning\<close> object\<close>

record TrelloCredentials =
  username :: string
  password :: string

text \<open>The fields \<open>__init__\<close> sets and nothing reassigns.\<close>

record TrelloProvisioning =
  headless :: bool
  wait_timeout :: int
  max_retries :: nat
  retry_delay_base :: nat
  credentials :: TrelloCredentials

subsection \<open>script.py: \<open>_retry_operation\<close>\<close>

text \<open>
  The \<open>for attempt in range(self.max_retries)\<close> loop: \<open>attempt\<close> is the loop variable,
  \<open>n\<close> the number of iterations left, \<open>last_exception\<close> the variable of that name. Every
  \<open>Exception\<close> is caught; the sleep follows every failed attempt, the last one too.
  The loop ends with \<open>Inl last_exception\<close> when the range is exhausted.
\<close>

fun retry_loop ::
  "nat \<Rightarrow> 'a prog \<Rightarrow> nat \<Rightarrow> nat \<Rightarrow> exn option \<Rightarrow> state \<Rightarrow> (exn option + 'a) \<times> state" where
  "retry_loop delay_base operation attempt 0 last_exception s = (Inl last_exception, s)"
| "retry_loop delay_base operation attempt (Suc n) last_exception s =
     (case operation s of
        (Inr x, s') \<Rightarrow> (Inr x, s')
      | (Inl e, s') \<Rightarrow>
          retry_loop delay_base operation (Suc attempt) n (Some e)
            (snd (sleep (delay_base * 2 ^ attempt) s')))"

text \<open>\<open>str(last_exception)\<close>, which is \<open>None\<close> when the loop never ran.\<close>

fun str_opt :: "exn option \<Rightarrow> string" where
  "str_opt None = ''None''"
| "str_opt (Some e) = str e"

text \<open>\<open>name\<close> is \<open>operation.__name__\<close>.\<close>

definition retry_operation :: "TrelloProvisioning \<Rightarrow> string \<Rightarrow> 'a prog \<Rightarrow> 'a prog" where
  "retry_operation self name operation s =
     (case retry_loop (retry_delay_base self) operation 0 (max_retries self) None s of
        (Inr x, s') \<Rightarrow> (Inr x, s')
      | (Inl last_exception, s') \<Rightarrow>
          raise (Exn TrelloProvisioningError
            (''Operation '' @ name @ '' failed after '' @ string_of_nat (max_retries self)
              @ '' attempts'' @ ''. Last error: '' @ str_opt last_exception)) s')"

subsection \<open>part\_000: \<open>retry_action\<close>\<close>

text \<open>
  The three classes of the \<open>except\<close> clause of \<open>retry_action\<close> (part\_000 line 224).
\<close>

definition transient :: "exn \<Rightarrow> bool" where
  "transient e \<longleftrightarrow>
     isinstance e TimeoutException \<or> isinstance e StaleElementReferenceException
       \<or> isinstance e ElementClickInterceptedException"

text \<open>
  The loop of \<open>retry_action\<close>: an exception outside the three classes leaves the loop
  and the function at once (\<open>Inl (Some e)\<close>); \<open>Inl None\<close> is the exhausted range.
\<close>

fun retry_action_loop ::
  "nat \<Rightarrow> 'a prog \<Rightarrow> nat \<Rightarrow> nat \<Rightarrow> state \<Rightarrow> (exn option + 'a) \<times> state" where
  "retry_action_loop delay action attempt 0 s = (Inl None, s)"
| "retry_action_loop delay action attempt (Suc n) s =
     (case action s of
        (Inr x, s') \<Rightarrow> (Inr x, s')
      | (Inl e, s') \<Rightarrow>
          if transient e
          then retry_action_loop delay action (Suc attempt) n
                 (snd (sleep (delay * 2 ^ attempt) s'))
          else (Inl (Some e), s'))"

definition retry_action :: "'a prog \<Rightarrow> nat \<Rightarrow> nat \<Rightarrow> 'a prog" where
  "retry_action action max_attempts delay s =
     (case retry_action_loop delay action 0 max_attempts s of
        (Inr x, s') \<Rightarrow> (Inr x, s')
      | (Inl (Some e), s') \<Rightarrow> raise e s'
      | (Inl None, s') \<Rightarrow>
          raise (Exn Exception
            (''Failed after '' @ string_of_nat max_attempts @ '' attempts'')) s')"

subsection \<open>script.py: clicking, CAPTCHA detection\<close>

definition quote :: string where
  "quote = [CHR 0x27]"

text \<open>
  \<open>_wait_and_find_element\<close>: a fresh \<open>WebDriverWait\<close> on \<open>self.driver\<close>;
  \<open>timeout or self.wait_timeout\<close> takes the default for \<open>None\<close> and for \<open>0\<close>.
\<close>

definition wait_and_find_element ::
  "browser \<Rightarrow> TrelloProvisioning \<Rightarrow> By \<Rightarrow> string \<Rightarrow> int option \<Rightarrow> elem prog" where
  "wait_and_find_element B self b v timeout =
     (let wait_time = (case timeout of
                         None \<Rightarrow> wait_timeout self
                       | Some t \<Rightarrow> if t = 0 then wait_timeout self else t)
      in on_driver B (elem_of B) (UntilPresence b v wait_time))"

text \<open>
  The inner function of \<open>_safe_click\<close>: the JavaScript click runs only after an
  intercepted click.
\<close>

definition click_operation :: "browser \<Rightarrow> elem \<Rightarrow> unit prog" where
  "click_operation B element =
     except (perform B no_result (Click element)) ElementClickInterceptedException
       (\<lambda>e. on_driver B no_result (ScriptClick element))"

definition safe_click :: "browser \<Rightarrow> TrelloProvisioning \<Rightarrow> elem \<Rightarrow> unit prog" where
  "safe_click B self element =
     retry_operation self ''click_operation'' (click_operation B element)"

definition captcha_selectors :: "string list" where
  "captcha_selectors =
     [''iframe[src*='recaptcha']'', ''.g-recaptcha'', ''#recaptcha'', ''.captcha'',
      ''iframe[title*='captcha']'', ''iframe[title*='challenge']'']"

text \<open>
  The loop of \<open>_check_for_captcha\<close>: a selector whose lookup raises is skipped
  (\<open>except Exception: continue\<close>).
\<close>

fun check_for_captcha_loop :: "browser \<Rightarrow> string list \<Rightarrow> bool prog" where
  "check_for_captcha_loop B [] s = (Inr False, s)"
| "check_for_captcha_loop B (selector # rest) s =
     (case find_elements B CSS_SELECTOR selector s of
        (Inr elements, s') \<Rightarrow>
          if elements \<noteq> [] then (Inr True, s') else check_for_captcha_loop B rest s'
      | (Inl e, s') \<Rightarrow> check_for_captcha_loop B rest s')"

definition check_for_captcha :: "browser \<Rightarrow> bool prog" where
  "check_for_captcha B = check_for_captcha_loop B captcha_selectors"

definition captcha_prompt :: string where
  "captcha_prompt = ''Press Enter after solving the CAPTCHA to continue...''"

definition captcha_message :: string where
  "captcha_message = ''CAPTCHA detected in headless mode. Please run with --no-headless flag.''"

text \<open>\<open>input\<close> blocks until the operator presses Enter; it is a call like the others.\<close>

definition handle_captcha_if_present :: "browser \<Rightarrow> TrelloProvisioning \<Rightarrow> unit prog" where
  "handle_captcha_if_present B self =
     bindE (check_for_captcha B) (\<lambda>detected.
       if detected then
         (if \<not> headless self
          then bindE (perform B (str_of B) (Input captcha_prompt)) (\<lambda>_. ret ())
          else raise (Exn CaptchaDetectedException captcha_message))
       else ret ())"

subsection \<open>script.py: \<open>_setup_driver\<close> and \<open>cleanup\<close>\<close>

definition set_driver :: "unit option \<Rightarrow> unit prog" where
  "set_driver d s = (Inr (), s\<lparr>driver := d\<rparr>)"

definition set_wait :: "int option \<Rightarrow> unit prog" where
  "set_wait w s = (Inr (), s\<lparr>wait := w\<rparr>)"

text \<open>
  \<open>Install\<close> is \<open>Service(ChromeDriverManager().install())\<close>, \<open>NewChrome\<close> the
  constructor \<open>webdriver.Chrome\<close>; \<open>self.driver\<close> is assigned only when it returns.
\<close>

definition setup_driver :: "browser \<Rightarrow> TrelloProvisioning \<Rightarrow> unit prog" where
  "setup_driver B self =
     tryE
       (thenE (perform B no_result Install)
       (thenE (perform B no_result (NewChrome (headless self)))
       (thenE (set_driver (Some ()))
       (thenE (on_driver B no_result (SetPageLoadTimeout 30))
       (thenE (on_driver B no_result (ImplicitlyWait 5))
       (thenE (set_wait (Some (wait_timeout self)))
       (if \<not> headless self then on_driver B no_result MaximizeWindow else ret ())))))))
       (\<lambda>e. raise (Exn TrelloProvisioningError (''Failed to setup WebDriver: '' @ str e)))"

definition cleanup :: "browser \<Rightarrow> unit prog" where
  "cleanup B s =
     (if driver s \<noteq> None
      then tryE (on_driver B no_result Quit) (\<lambda>e. ret ()) s
      else ret () s)"

subsection \<open>script.py: \<open>login\<close>\<close>

definition login_url :: string where
  "login_url = ''https://trello.com/login''"

text \<open>
  The handler of the \<open>TimeoutException\<close> of the last wait: \<open>"login" in current_url\<close>.
\<close>

definition still_on_login :: "browser \<Rightarrow> unit prog" where
  "still_on_login B =
     bindE (on_driver B (str_of B) CurrentUrl) (\<lambda>url.
       if sublist ''login'' url
       then raise (Exn TrelloProvisioningError
              ''Login appears to have failed - still on login page'')
       else ret ())"

text \<open>
  The \<open>try\<close> block of \<open>login\<close>, in three parts: everything up to the entry of the
  password (lines 274 to 298), the check before submitting (line 301), and the
  submission with the wait for its outcome (lines 304 to 322).
\<close>

definition enter_credentials :: "browser \<Rightarrow> TrelloProvisioning \<Rightarrow> unit prog" where
  "enter_credentials B self =
     thenE (on_driver B no_result (Get login_url))
    (thenE (handle_captcha_if_present B self)
    (bindE (wait_and_find_element B self ID ''username'' None) (\<lambda>username_input.
     thenE (perform B no_result (Clear username_input))
    (thenE (perform B no_result (SendKeys username_input (username (credentials self))))
    (thenE (except
              (bindE (find_element B ID ''login-submit'') (\<lambda>continue_btn.
               thenE (safe_click B self continue_btn) (sleep 2)))
              NoSuchElementException (\<lambda>e. ret ()))
    (bindE (wait_and_find_element B self ID ''password'' None) (\<lambda>password_input.
     thenE (perform B no_result (Clear password_input))
           (perform B no_result
              (SendKeys password_input (password (credentials self)))))))))))"

definition submit_login :: "browser \<Rightarrow> TrelloProvisioning \<Rightarrow> unit prog" where
  "submit_login B self =
     bindE (wait_and_find_element B self ID ''login-submit'' None) (\<lambda>login_button.
     thenE (safe_click B self login_button)
           (except (on_wait B no_result UntilLoggedIn) TimeoutException
              (\<lambda>e. still_on_login B)))"

definition login_steps :: "browser \<Rightarrow> TrelloProvisioning \<Rightarrow> unit prog" where
  "login_steps B self =
     thenE (enter_credentials B self)
    (thenE (handle_captcha_if_present B self)
           (submit_login B self))"

text \<open>
  \<open>login\<close>: the first \<open>except\<close> clause passes a \<open>CaptchaDetectedException\<close> on, the
  second wraps everything else.
\<close>

definition login :: "browser \<Rightarrow> TrelloProvisioning \<Rightarrow> unit prog" where
  "login B self =
     tryE (login_steps B self)
       (\<lambda>e. if isinstance e CaptchaDetectedException then raise e
            else raise (Exn TrelloProvisioningError (''Login failed: '' @ str e)))"

subsection \<open>script.py: the ordered fallback searches\<close>

text \<open>
  The five \<open>for selector in ...\<close> loops of \<open>navigate_to_workspace\<close> and
  \<open>add_new_user\<close> have one shape: look the selector up, act on the element, set the
  found flag and \<open>break\<close>; on \<open>NoSuchElementException\<close>, from the lookup or from the
  action, \<open>continue\<close>. \<open>act\<close> is what the loop does with the element. The result is
  the element the loop stopped at; the found flag is that there is one.
\<close>

fun for_selectors :: "browser \<Rightarrow> (elem \<Rightarrow> unit prog) \<Rightarrow> string list \<Rightarrow> elem option prog" where
  "for_selectors B act [] s = (Inr None, s)"
| "for_selectors B act (selector # rest) s =
     (case bindE (find_element B XPATH selector) (\<lambda>element.
             thenE (act element) (ret element)) s of
        (Inr element, s') \<Rightarrow> (Inr (Some element), s')
      | (Inl e, s') \<Rightarrow>
          if isinstance e NoSuchElementException then for_selectors B act rest s'
          else (Inl e, s'))"

definition workspace_selectors :: "string \<Rightarrow> string list" where
  "workspace_selectors workspace_name =
     [''//a[contains(text(), '' @ quote @ workspace_name @ quote @ '')]'',
      ''//div[contains(text(), '' @ quote @ workspace_name @ quote @ '')]'',
      ''//span[contains(text(), '' @ quote @ workspace_name @ quote @ '')]'',
      ''//*[@data-testid='workspace-name'][contains(text(), '' @ quote @ workspace_name
         @ quote @ '')]'',
      ''//*[contains(@class, 'workspace')]//*[contains(text(), '' @ quote @ workspace_name
         @ quote @ '')]'']"

definition boards_url :: string where
  "boards_url = ''https://trello.com/boards''"

definition workspace_not_found :: "string \<Rightarrow> string" where
  "workspace_not_found workspace_name =
     ''Workspace '' @ quote @ workspace_name @ quote @ '' not found''"

definition navigate_failed :: "string \<Rightarrow> string" where
  "navigate_failed workspace_name =
     ''Failed to navigate to workspace '' @ quote @ workspace_name @ quote @ '': ''"

text \<open>
  The second search runs inside its own \<open>try\<close>, whose handler only logs: whatever is
  raised there leaves \<open>workspace_found\<close> false.
\<close>

definition navigate_to_workspace :: "browser \<Rightarrow> TrelloProvisioning \<Rightarrow> string \<Rightarrow> unit prog" where
  "navigate_to_workspace B self workspace_name =
     tryE
       (bindE (for_selectors B (safe_click B self) (workspace_selectors workspace_name))
          (\<lambda>found.
        bindE (if found = None
               then tryE
                      (thenE (on_driver B no_result (Get boards_url))
                      (thenE (sleep 3)
                        (for_selectors B (safe_click B self)
                           (workspace_selectors workspace_name))))
                      (\<lambda>e. ret None)
               else ret found)
          (\<lambda>found.
        if found = None
        then raise (Exn TrelloProvisioningError (workspace_not_found workspace_name))
        else sleep 3)))
       (\<lambda>e. raise (Exn TrelloProvisioningError (navigate_failed workspace_name @ str e)))"

definition invite_selectors :: "string list" where
  "invite_selectors =
     [''//button[contains(text(), 'Invite')]'',
      ''//button[contains(text(), 'Members')]'',
      ''//a[contains(text(), 'Invite')]'',
      ''//*[@data-testid='invite-button']'',
      ''//*[@data-testid='members-button']'',
      ''//button[contains(@class, 'invite')]'',
      ''//button[contains(@title, 'Invite')]'',
      ''//*[contains(@class, 'workspace-header')]//*[contains(text(), 'Invite')]'']"

definition email_selectors :: "string list" where
  "email_selectors =
     [''//input[@placeholder*='email']'',
      ''//input[@id*='email']'',
      ''//input[@name*='email']'',
      ''//input[@type='email']'',
      ''//*[@data-testid='invite-email-input']'',
      ''//textarea[contains(@placeholder, 'email')]'']"

definition submit_selectors :: "string list" where
  "submit_selectors =
     [''//button[contains(text(), 'Send')]'',
      ''//button[contains(text(), 'Invite')]'',
      ''//button[@type='submit']'',
      ''//*[@data-testid='send-invite-button']'',
      ''//input[@type='submit']'']"

text \<open>\<open>Keys.ENTER\<close> is the code point U+E007, here in UTF-8.\<close>

definition ENTER :: string where
  "ENTER = [CHR 0xEE, CHR 0x80, CHR 0x87]"

text \<open>What the e-mail loop does with the element.\<close>

definition fill :: "browser \<Rightarrow> string \<Rightarrow> elem \<Rightarrow> unit prog" where
  "fill B email email_input =
     thenE (perform B no_result (Clear email_input))
           (perform B no_result (SendKeys email_input email))"

definition add_user_failed :: "string \<Rightarrow> string" where
  "add_user_failed email = ''Failed to add user '' @ quote @ email @ quote @ '': ''"

definition add_new_user :: "browser \<Rightarrow> TrelloProvisioning \<Rightarrow> string \<Rightarrow> unit prog" where
  "add_new_user B self email =
     tryE
       (bindE (for_selectors B (safe_click B self) invite_selectors) (\<lambda>invite_button.
        if invite_button = None
        then raise (Exn TrelloProvisioningError ''Could not find invite/members button'')
        else
        thenE (sleep 2)
       (bindE (for_selectors B (fill B email) email_selectors) (\<lambda>found.
        case found of
          None \<Rightarrow> raise (Exn TrelloProvisioningError ''Could not find email input field'')
        | Some email_input \<Rightarrow>
        bindE (for_selectors B (safe_click B self) submit_selectors) (\<lambda>submit_button.
        bindE (if submit_button = None
               then tryE (thenE (perform B no_result (SendKeys email_input ENTER)) (ret True))
                      (\<lambda>e. ret False)
               else ret True) (\<lambda>submit_button_found.
        if \<not> submit_button_found
        then raise (Exn TrelloProvisioningError
               ''Could not find submit button to send invitation'')
        else sleep 3))))))
       (\<lambda>e. raise (Exn TrelloProvisioningError (add_user_failed email @ str e)))"

subsection \<open>script.py: \<open>verify_user_added\<close>\<close>

definition user_verification_selectors :: "string \<Rightarrow> string list" where
  "user_verification_selectors email =
     [''//*[contains(text(), '' @ quote @ email @ quote @ '')]'',
      ''//span[contains(@title, '' @ quote @ email @ quote @ '')]'',
      ''//*[@data-testid='member'][contains(., '' @ quote @ email @ quote @ '')]'',
      ''//*[contains(@class, 'member')][contains(., '' @ quote @ email @ quote @ '')]'']"

definition success_selectors :: "string list" where
  "success_selectors =
     [''//*[contains(text(), 'invited')]'',
      ''//*[contains(text(), 'sent')]'',
      ''//*[contains(text(), 'added')]'',
      ''//*[contains(@class, 'success')]'']"

text \<open>
  The first loop: \<open>True\<close> is the \<open>return True\<close> inside it, \<open>False\<close> the end of the
  list. Only \<open>NoSuchElementException\<close> is skipped.
\<close>

fun user_loop :: "browser \<Rightarrow> string list \<Rightarrow> bool prog" where
  "user_loop B [] s = (Inr False, s)"
| "user_loop B (selector # rest) s =
     (case find_elements B XPATH selector s of
        (Inr user_elements, s') \<Rightarrow>
          if user_elements \<noteq> [] then (Inr True, s') else user_loop B rest s'
      | (Inl e, s') \<Rightarrow>
          if isinstance e NoSuchElementException then user_loop B rest s'
          else (Inl e, s'))"

text \<open>
  The second loop: the log message reads \<open>success_elements[0].text\<close> before the
  \<open>return True\<close>, inside the \<open>try\<close>; the bare \<open>except\<close> skips the selector whatever
  was raised.
\<close>

fun success_loop :: "browser \<Rightarrow> string list \<Rightarrow> bool prog" where
  "success_loop B [] s = (Inr False, s)"
| "success_loop B (selector # rest) s =
     (case bindE (find_elements B XPATH selector) (\<lambda>success_elements.
             case success_elements of
               [] \<Rightarrow> ret False
             | first # _ \<Rightarrow> thenE (perform B (str_of B) (Text first)) (ret True)) s of
        (Inr found, s') \<Rightarrow> if found then (Inr True, s') else success_loop B rest s'
      | (Inl e, s') \<Rightarrow> success_loop B rest s')"

definition verify_user_added :: "browser \<Rightarrow> string \<Rightarrow> bool prog" where
  "verify_user_added B email =
     tryE
       (bindE (user_loop B (user_verification_selectors email)) (\<lambda>found.
        if found then ret True else success_loop B success_selectors))
       (\<lambda>e. ret False)"

subsection \<open>script.py: construction, \<open>run_provisioning\<close> and \<open>main\<close>\<close>

text \<open>The process environment after \<open>load_dotenv\<close>.\<close>

type_synonym environ = "string \<Rightarrow> string option"

text \<open>\<open>not v\<close> for the result of \<open>os.getenv\<close>: unset or empty.\<close>

definition unset :: "string option \<Rightarrow> bool" where
  "unset v \<longleftrightarrow> v = None \<or> v = Some []"

definition credentials_missing :: string where
  "credentials_missing = ''TRELLO_USERNAME and TRELLO_PASSWORD must be set in .env file''"

definition load_credentials :: "environ \<Rightarrow> exn + TrelloCredentials" where
  "load_credentials environ =
     (let username = environ ''TRELLO_USERNAME''; password = environ ''TRELLO_PASSWORD''
      in if unset username \<or> unset password
         then Inl (Exn TrelloProvisioningError credentials_missing)
         else Inr \<lparr>username = the username, password = the password\<rparr>)"

definition lift :: "exn + 'a \<Rightarrow> 'a prog" where
  "lift r s = (r, s)"

text \<open>\<open>__init__\<close> of \<open>TrelloProvisioning\<close>.\<close>

definition TrelloProvisioning_init :: "environ \<Rightarrow> bool \<Rightarrow> int \<Rightarrow> TrelloProvisioning prog" where
  "TrelloProvisioning_init environ hl wt =
     thenE (set_driver None)
    (thenE (set_wait None)
    (bindE (lift (load_credentials environ)) (\<lambda>credentials.
     ret \<lparr>headless = hl, wait_timeout = wt, max_retries = 3,
          retry_delay_base = 1, credentials = credentials\<rparr>)))"

text \<open>
  The three \<open>except\<close> clauses of \<open>run_provisioning\<close> differ in what they log; each
  leaves \<open>success\<close> false. \<open>finally\<close> runs \<open>cleanup\<close> after the body or its handler.
\<close>

definition run_provisioning ::
  "browser \<Rightarrow> TrelloProvisioning \<Rightarrow> string \<Rightarrow> string \<Rightarrow> bool prog" where
  "run_provisioning B self email workspace =
     bindE
       (tryE
          (thenE (setup_driver B self)
          (thenE (login B self)
          (thenE (navigate_to_workspace B self workspace)
          (thenE (add_new_user B self email)
                 (verify_user_added B email)))))
          (\<lambda>e. if isinstance e CaptchaDetectedException then ret False
               else if isinstance e TrelloProvisioningError then ret False
               else ret False))
       (\<lambda>success. thenE (cleanup B) (ret success))"

record args =
  arg_no_headless :: bool
  arg_email :: string
  arg_workspace :: string
  arg_timeout :: int

text \<open>\<open>main\<close>: the result is the exit code of \<open>sys.exit\<close>.\<close>

definition main :: "browser \<Rightarrow> environ \<Rightarrow> args \<Rightarrow> nat prog" where
  "main B environ a =
     bindE (TrelloProvisioning_init environ (\<not> arg_no_headless a) (arg_timeout a))
       (\<lambda>provisioning.
     bindE (run_provisioning B provisioning (arg_email a) (arg_workspace a)) (\<lambda>success.
     ret (if success then 0 else 1)))"

subsection \<open>part\_000: construction, \<open>verify_user_addition\<close>, \<open>cleanup\<close>\<close>

text \<open>
  The fields and the \<open>cleanup\<close> of \<open>TrelloUserProvisioning\<close> carry a prime, to tell
  them from the ones of script.py.
\<close>

record TrelloUserProvisioning =
  headless' :: bool
  timeout' :: int
  base_url' :: string
  login_url' :: string
  username' :: string
  password' :: string
  workspace_name' :: string
  new_user_email' :: string
  new_user_role' :: string

text \<open>\<open>__init__\<close> of \<open>TrelloUserProvisioning\<close>.\<close>

definition TrelloUserProvisioning_init ::
  "environ \<Rightarrow> bool \<Rightarrow> int \<Rightarrow> TrelloUserProvisioning prog" where
  "TrelloUserProvisioning_init environ hl t =
     thenE (set_driver None)
    (thenE (set_wait None)
    (let username = environ ''TRELL_USERNAME''; password = environ ''TRELL_PASSWORD''
     in if unset username \<or> unset password
        then raise (Exn ValueError ''TRELL_USERNAME or TRELL_PASSWORD missing in .env file.'')
        else ret \<lparr>headless' = hl, timeout' = t,
               base_url' = ''https://trello.com'', login_url' = ''https://trello.com/login'',
               username' = the username, password' = the password,
               workspace_name' = ''Project X'', new_user_email' = ''newuser@example.com'',
               new_user_role' = ''Member''\<rparr>))"

text \<open>
  \<open>str.lower\<close> is Python's lower-casing of Unicode text. The model does not define
  it: it is the parameter \<open>lower\<close> of the functions below, and what is proved holds for
  every such function.
\<close>

definition member_xpath :: "(string \<Rightarrow> string) \<Rightarrow> string \<Rightarrow> string" where
  "member_xpath lower email =
     ''//div[contains(@class, 'member-list')]//span[contains(translate(text(), ''
       @ quote @ ''ABCDEFGHIJKLMNOPQRSTUVWXYZ'' @ quote
       @ '', 'abcdefghijklmnopqrstuvwxyz'), ''
       @ quote @ lower email @ quote @ '')]''"

text \<open>
  The \<open>for _ in range(3)\<close> loop: \<open>n\<close> iterations are left. A timeout sleeps two seconds
  and goes on; anything else leaves the loop for the outer handler.
\<close>

fun verify_user_addition_loop ::
  "browser \<Rightarrow> (string \<Rightarrow> string) \<Rightarrow> string \<Rightarrow> nat \<Rightarrow> bool prog" where
  "verify_user_addition_loop B lower email 0 s = (Inr False, s)"
| "verify_user_addition_loop B lower email (Suc n) s =
     (case on_wait B (elem_of B) (UntilPresence XPATH (member_xpath lower email)) s of
        (Inr element, s') \<Rightarrow> (Inr True, s')
      | (Inl e, s') \<Rightarrow>
          if isinstance e TimeoutException
          then verify_user_addition_loop B lower email n (snd (sleep 2 s'))
          else (Inl e, s'))"

definition verify_user_addition ::
  "browser \<Rightarrow> (string \<Rightarrow> string) \<Rightarrow> TrelloUserProvisioning \<Rightarrow> bool prog" where
  "verify_user_addition B lower self =
     tryE (verify_user_addition_loop B lower (new_user_email' self) 3) (\<lambda>e. ret False)"

text \<open>
  \<open>cleanup\<close> of \<open>TrelloUserProvisioning\<close>: the \<open>finally\<close> clause resets both fields.
\<close>

definition cleanup' :: "browser \<Rightarrow> unit prog" where
  "cleanup' B =
     thenE (tryE (\<lambda>s. if driver s \<noteq> None then on_driver B no_result Quit s else ret () s)
                 (\<lambda>e. ret ()))
    (thenE (set_driver None) (set_wait None))"

section \<open>Inputs and vocabulary of the properties\<close>

text \<open>The state \<open>__init__\<close> leaves behind before any call is made.\<close>

definition fresh :: state where
  "fresh = \<lparr>driver = None, wait = None, calls = []\<rparr>"

text \<open>The object \<open>__init__\<close> builds in a headless run with both credentials set.\<close>

definition self0 :: TrelloProvisioning where
  "self0 = \<lparr>headless = True, wait_timeout = 10, max_retries = 3, retry_delay_base = 1,
            credentials = \<lparr>username = ''user@example.com'', password = ''secret''\<rparr>\<rparr>"

text \<open>
  The history of \<open>k\<close> failed attempts at the call \<open>c\<close>, the first of them attempt
  number \<open>a\<close>: each is followed by its sleep of \<open>delay * 2 ^ attempt\<close>.
\<close>

definition backoff :: "call \<Rightarrow> nat \<Rightarrow> nat \<Rightarrow> nat \<Rightarrow> call list" where
  "backoff c delay a k = concat (map (\<lambda>i. [c, Sleep (delay * 2 ^ i)]) [a..<a + k])"

text \<open>Operations and browsers of the examples.\<close>

definition always_timeout :: "nat prog" where
  "always_timeout = raise (Exn TimeoutException ''timed out'')"

definition value_error_once :: "nat prog" where
  "value_error_once s = (if calls s = [] then raise (Exn ValueError ''bad'') s else ret 7 s)"

definition click_fails_twice :: browser where
  "click_fails_twice =
     \<lparr>fails = (\<lambda>h c. if c = Click 0 \<and> length (filter (\<lambda>x. x = Click 0) h) < 2
                     then Some (Exn TimeoutException ''timed out'') else None),
      elem_of = (\<lambda>h c. 0), elems_of = (\<lambda>h c. []), str_of = (\<lambda>h c. [])\<rparr>"

text \<open>A state in which \<open>_setup_driver\<close> has succeeded and nothing else was called.\<close>

definition ready :: state where
  "ready = \<lparr>driver = Some (), wait = Some 10, calls = []\<rparr>"

text \<open>
  A page on which nothing is found: single lookups raise \<open>NoSuchElementException\<close>,
  waits for an element time out, list lookups return the empty list.
\<close>

definition nothing_there :: browser where
  "nothing_there =
     \<lparr>fails = (\<lambda>h c. case c of
                  FindElement b v \<Rightarrow> Some (Exn NoSuchElementException ''no such element'')
                | UntilPresence b v t \<Rightarrow> Some (Exn TimeoutException ''timed out'')
                | _ \<Rightarrow> None),
      elem_of = (\<lambda>h c. 0), elems_of = (\<lambda>h c. []), str_of = (\<lambda>h c. [])\<rparr>"

text \<open>
  A lower-casing for the examples: it lowers the ASCII letters, which is what
  \<open>str.lower\<close> does on ASCII text.
\<close>

definition ascii_lower :: "string \<Rightarrow> string" where
  "ascii_lower = map (\<lambda>c. if 65 \<le> (of_char c :: nat) \<and> (of_char c :: nat) \<le> 90
                     then char_of ((of_char c :: nat) + 32) else c)"



text \<open>The part\_000 object built from a complete environment.\<close>

definition self1 :: TrelloUserProvisioning where
  "self1 = \<lparr>headless' = True, timeout' = 30,
             base_url' = ''https://trello.com'', login_url' = ''https://trello.com/login'',
             username' = ''user@example.com'', password' = ''secret'',
             workspace_name' = ''Project X'', new_user_email' = ''newuser@example.com'',
             new_user_role' = ''Member''\<rparr>"

text \<open>Environments that lack a credential: one has no password, one an empty user name.\<close>

definition no_password :: environ where
  "no_password = (\<lambda>k. if k = ''TRELLO_USERNAME'' then Some ''user@example.com'' else None)"

definition empty_username :: environ where
  "empty_username =
     (\<lambda>k. if k = ''TRELL_USERNAME'' then Some []
          else if k = ''TRELL_PASSWORD'' then Some ''secret'' else None)"

definition args0 :: args where
  "args0 = \<lparr>arg_no_headless = False, arg_email = ''newuser@example.com'',
             arg_workspace = ''Project X'', arg_timeout = 10\<rparr>"

text \<open>A browser whose \<open>quit\<close> fails.\<close>

definition quit_fails :: browser where
  "quit_fails =
     \<lparr>fails = (\<lambda>h c. if c = Quit then Some (Exn WebDriverException ''session gone'') else None),
      elem_of = (\<lambda>h c. 0), elems_of = (\<lambda>h c. []), str_of = (\<lambda>h c. [])\<rparr>"

text \<open>The calls that look a list of elements up, and the sleeps.\<close>

fun is_lookup :: "call \<Rightarrow> bool" where
  "is_lookup (FindElements b v) = True"
| "is_lookup c = False"


text \<open>What a click on \<open>element\<close> may call: the two clicks and the sleeps of the retry.\<close>

fun clicks :: "elem \<Rightarrow> call \<Rightarrow> bool" where
  "clicks element (Click e) = (e = element)"
| "clicks element (ScriptClick e) = (e = element)"
| "clicks element (Sleep d) = True"
| "clicks element c = False"

text \<open>
  \<open>adds P m\<close>: running \<open>m\<close> leaves \<open>driver\<close> and \<open>wait\<close> as they are and appends to the
  history only calls that satisfy \<open>P\<close>.
\<close>

definition adds :: "(call \<Rightarrow> bool) \<Rightarrow> (state \<Rightarrow> 'r \<times> state) \<Rightarrow> bool" where
  "adds P m \<longleftrightarrow>
     (\<forall>s. driver (snd (m s)) = driver s \<and> wait (snd (m s)) = wait s
          \<and> (\<exists>cs. calls (snd (m s)) = calls s @ cs \<and> list_all P cs))"

text \<open>
  A page on which the third invite selector is the only one that matches; its element
  is number 7.
\<close>

definition third_matches :: browser where
  "third_matches =
     \<lparr>fails = (\<lambda>h c. case c of
                  FindElement b v \<Rightarrow>
                    if v = invite_selectors ! 2 then None
                    else Some (Exn NoSuchElementException ''no such element'')
                | _ \<Rightarrow> None),
      elem_of = (\<lambda>h c. 7), elems_of = (\<lambda>h c. []), str_of = (\<lambda>h c. [])\<rparr>"

text \<open>
  A page on which the first two e-mail selectors match, elements 1 and 2, and clearing
  element 1 raises \<open>NoSuchElementException\<close>.
\<close>

definition clear_not_found :: browser where
  "clear_not_found =
     \<lparr>fails = (\<lambda>h c. if c = Clear 1 then Some (Exn NoSuchElementException ''no such element'')
                     else None),
      elem_of = (\<lambda>h c. if c = FindElement XPATH (email_selectors ! 0) then 1 else 2),
      elems_of = (\<lambda>h c. []), str_of = (\<lambda>h c. [])\<rparr>"





text \<open>
  The calls made between the start of the browser and its end: all but the two that
  start it and \<open>quit\<close>.
\<close>

fun in_session :: "call \<Rightarrow> bool" where
  "in_session Install = False"
| "in_session (NewChrome h) = False"
| "in_session Quit = False"
| "in_session c = True"

text \<open>
  A browser that does not itself raise the program's \<open>CaptchaDetectedException\<close>.
\<close>

definition honest :: "browser \<Rightarrow> bool" where
  "honest B \<longleftrightarrow> (\<forall>h c e. fails B h c = Some e \<longrightarrow> \<not> isinstance e CaptchaDetectedException)"

text \<open>
  \<open>detected B x s\<close>: \<open>x\<close> is the exception of \<open>_handle_captcha_if_present\<close> and the last
  call of the history of \<open>s\<close> is the lookup of a CAPTCHA selector that returned an element.
\<close>

definition detected :: "browser \<Rightarrow> exn \<Rightarrow> state \<Rightarrow> bool" where
  "detected B x s \<longleftrightarrow>
     x = Exn CaptchaDetectedException captcha_message
     \<and> (\<exists>h v. calls s = h @ [FindElements CSS_SELECTOR v] \<and> v \<in> set captcha_selectors
            \<and> fails B h (FindElements CSS_SELECTOR v) = None
            \<and> elems_of B h (FindElements CSS_SELECTOR v) \<noteq> [])"

text \<open>\<open>captcha_at Q m\<close>: when \<open>m\<close> ends with a \<open>CaptchaDetectedException\<close>, \<open>Q\<close> holds.\<close>

definition captcha_at :: "(exn \<Rightarrow> state \<Rightarrow> bool) \<Rightarrow> 'a prog \<Rightarrow> bool" where
  "captcha_at Q m \<longleftrightarrow>
     (\<forall>s x s'. m s = (Inl x, s') \<and> isinstance x CaptchaDetectedException \<longrightarrow> Q x s')"




section \<open>Properties\<close>

subsection \<open>The retry helpers\<close>

lemma backoff_0 [simp]: "backoff c delay a 0 = []"
  by (simp add: backoff_def)

lemma backoff_Suc:
  "backoff c delay a (Suc k) = c # Sleep (delay * 2 ^ a) # backoff c delay (Suc a) k"
  by (simp add: backoff_def upt_rec)

lemma retry_loop_calls:
  assumes one: "\<And>s. calls (snd (operation s)) = calls s @ [c]"
  shows "retry_loop delay operation a n l s = (r, s') \<Longrightarrow>
     \<exists>k. calls s' = calls s @ backoff c delay a k @ (if isl r then [] else [c])
        \<and> (if isl r then k = n else k < n)"
proof (induction n arbitrary: a l s)
  case 0
  then show ?case by auto
next
  case (Suc n)
  obtain r1 s1 where op: "operation s = (r1, s1)" by (cases "operation s")
  with one [of s] have c1: "calls s1 = calls s @ [c]" by simp
  show ?case
  proof (cases r1)
    case (Inr x)
    with Suc.prems op c1 show ?thesis by (intro exI [of _ 0]) auto
  next
    case (Inl e)
    with Suc.prems op have
      "retry_loop delay operation (Suc a) n (Some e) (snd (sleep (delay * 2 ^ a) s1)) = (r, s')"
      by simp
    from Suc.IH [OF this] obtain k where
      k: "calls s' = calls (snd (sleep (delay * 2 ^ a) s1)) @ backoff c delay (Suc a) k
            @ (if isl r then [] else [c])"
        "if isl r then k = n else k < n"
      by blast
    show ?thesis
      using k c1 by (intro exI [of _ "Suc k"]) (auto simp: backoff_Suc sleep_def split: if_splits)
  qed
qed

lemma retry_action_loop_calls:
  assumes one: "\<And>s. calls (snd (action s)) = calls s @ [c]"
  shows "retry_action_loop delay action a n s = (r, s') \<Longrightarrow>
     \<exists>k. calls s' = calls s @ backoff c delay a k @ (if r = Inl None then [] else [c])
        \<and> (if r = Inl None then k = n else k < n)"
proof (induction n arbitrary: a s)
  case 0
  then show ?case by auto
next
  case (Suc n)
  obtain r1 s1 where op: "action s = (r1, s1)" by (cases "action s")
  with one [of s] have c1: "calls s1 = calls s @ [c]" by simp
  show ?case
  proof (cases r1)
    case (Inr x)
    with Suc.prems op c1 show ?thesis by (intro exI [of _ 0]) auto
  next
    case (Inl e)
    show ?thesis
    proof (cases "transient e")
      case False
      with Inl Suc.prems op c1 show ?thesis by (intro exI [of _ 0]) auto
    next
      case True
      with Inl Suc.prems op have
        "retry_action_loop delay action (Suc a) n (snd (sleep (delay * 2 ^ a) s1)) = (r, s')"
        by simp
      from Suc.IH [OF this] obtain k where
        k: "calls s' = calls (snd (sleep (delay * 2 ^ a) s1)) @ backoff c delay (Suc a) k
              @ (if r = Inl None then [] else [c])"
          "if r = Inl None then k = n else k < n"
        by blast
      show ?thesis
        using k c1 by (intro exI [of _ "Suc k"]) (auto simp: backoff_Suc sleep_def split: if_splits)
    qed
  qed
qed

lemma retry_operation_three:
  assumes "max_retries self = 3" "retry_delay_base self = 1"
  shows "retry_operation self name operation s0 =
     (case operation s0 of
        (Inr x, s1) \<Rightarrow> (Inr x, s1)
      | (Inl e1, s1) \<Rightarrow>
     (case operation (snd (sleep 1 s1)) of
        (Inr x, s2) \<Rightarrow> (Inr x, s2)
      | (Inl e2, s2) \<Rightarrow>
     (case operation (snd (sleep 2 s2)) of
        (Inr x, s3) \<Rightarrow> (Inr x, s3)
      | (Inl e3, s3) \<Rightarrow>
          (Inl (Exn TrelloProvisioningError
             (''Operation '' @ name @ '' failed after 3 attempts. Last error: '' @ str e3)),
           snd (sleep 4 s3)))))"
  using assms
  by (simp add: retry_operation_def numeral_3_eq_3 raise_def string_of_nat.simps
      split: prod.splits sum.splits)

lemma retry_action_three:
  "retry_action action 3 2 s0 =
     (case action s0 of
        (Inr x, s1) \<Rightarrow> (Inr x, s1)
      | (Inl e1, s1) \<Rightarrow> if \<not> transient e1 then (Inl e1, s1) else
     (case action (snd (sleep 2 s1)) of
        (Inr x, s2) \<Rightarrow> (Inr x, s2)
      | (Inl e2, s2) \<Rightarrow> if \<not> transient e2 then (Inl e2, s2) else
     (case action (snd (sleep 4 s2)) of
        (Inr x, s3) \<Rightarrow> (Inr x, s3)
      | (Inl e3, s3) \<Rightarrow> if \<not> transient e3 then (Inl e3, s3) else
          (Inl (Exn Exception ''Failed after 3 attempts''), snd (sleep 8 s3)))))"
  by (simp add: retry_action_def numeral_3_eq_3 raise_def string_of_nat.simps
      split: prod.splits sum.splits)

lemma retry_operation_calls:
  assumes one: "\<And>s. calls (snd (operation s)) = calls s @ [c]"
    and run: "retry_operation self name operation s = (r, s')"
  shows "\<exists>k. calls s' = calls s @ backoff c (retry_delay_base self) 0 k
                 @ (if isl r then [] else [c])
           \<and> (if isl r then k = max_retries self else k < max_retries self)"
proof -
  obtain r0 s0 where
    loop: "retry_loop (retry_delay_base self) operation 0 (max_retries self) None s = (r0, s0)"
    by (cases "retry_loop (retry_delay_base self) operation 0 (max_retries self) None s")
  from run loop have "s' = s0" "isl r = isl r0"
    by (auto simp: retry_operation_def raise_def split: sum.splits)
  with retry_loop_calls [of operation c, OF one loop] show ?thesis by simp
qed

lemma retry_action_calls:
  assumes one: "\<And>s. calls (snd (action s)) = calls s @ [c]"
    and run: "retry_action action n delay s = (r, s')"
  shows "(\<exists>k<n. calls s' = calls s @ backoff c delay 0 k @ [c])
       \<or> (calls s' = calls s @ backoff c delay 0 n
            \<and> r = Inl (Exn Exception (''Failed after '' @ string_of_nat n @ '' attempts'')))"
proof -
  obtain r0 s0 where loop: "retry_action_loop delay action 0 n s = (r0, s0)"
    by (cases "retry_action_loop delay action 0 n s")
  from run loop have s: "s' = s0"
    and r: "r0 = Inl None \<Longrightarrow>
              r = Inl (Exn Exception (''Failed after '' @ string_of_nat n @ '' attempts''))"
    by (auto simp: retry_action_def raise_def split: sum.splits option.splits)
  from retry_action_loop_calls [of action c, OF one loop] s r show ?thesis
    by (cases "r0 = Inl None") auto
qed

lemma transient_simps [simp]:
  "transient (Exn TimeoutException m)"
  "\<not> transient (Exn ValueError m)"
  by (simp_all add: transient_def isinstance_def issubclass_def)

text \<open>
  C1, as the code has it. \<open>_retry_operation\<close> of script.py, with the \<open>max_retries = 3\<close> and
  \<open>retry_delay_base = 1\<close> that \<open>__init__\<close> sets, calls the operation at most three times,
  retries after every exception whatever its class, sleeps 1, 2 and 4 seconds after the
  first, second and third failure, returns the first success, and after the third failure
  raises \<open>TrelloProvisioningError\<close> whose message ends with the text of the last exception.
  \<open>retry_action\<close> of part\_000, with its defaults \<open>max_attempts = 3\<close> and \<open>delay = 2\<close>,
  retries only after \<open>TimeoutException\<close>, \<open>StaleElementReferenceException\<close> and
  \<open>ElementClickInterceptedException\<close>, sleeping 2, 4 and 8 seconds; any other exception
  leaves it at once, unchanged; after the third transient failure it raises a plain
  \<open>Exception\<close> with the message \<open>Failed after 3 attempts\<close>. For any number of attempts,
  when the operation is one browser call \<open>c\<close>, the history is \<open>c\<close>, sleep, \<open>c\<close>, sleep, ...
  with the delay doubling, at most that number of times.
\<close>

theorem retry_helpers:
  "(max_retries self = 3 \<and> retry_delay_base self = 1 \<longrightarrow>
      retry_operation self name operation s0 =
       (case operation s0 of
          (Inr x, s1) \<Rightarrow> (Inr x, s1)
        | (Inl e1, s1) \<Rightarrow>
       (case operation (snd (sleep 1 s1)) of
          (Inr x, s2) \<Rightarrow> (Inr x, s2)
        | (Inl e2, s2) \<Rightarrow>
       (case operation (snd (sleep 2 s2)) of
          (Inr x, s3) \<Rightarrow> (Inr x, s3)
        | (Inl e3, s3) \<Rightarrow>
            (Inl (Exn TrelloProvisioningError
               (''Operation '' @ name @ '' failed after 3 attempts. Last error: '' @ str e3)),
             snd (sleep 4 s3))))))
   \<and> retry_action action 3 2 t0 =
       (case action t0 of
          (Inr x, t1) \<Rightarrow> (Inr x, t1)
        | (Inl e1, t1) \<Rightarrow> if \<not> transient e1 then (Inl e1, t1) else
       (case action (snd (sleep 2 t1)) of
          (Inr x, t2) \<Rightarrow> (Inr x, t2)
        | (Inl e2, t2) \<Rightarrow> if \<not> transient e2 then (Inl e2, t2) else
       (case action (snd (sleep 4 t2)) of
          (Inr x, t3) \<Rightarrow> (Inr x, t3)
        | (Inl e3, t3) \<Rightarrow> if \<not> transient e3 then (Inl e3, t3) else
            (Inl (Exn Exception ''Failed after 3 attempts''), snd (sleep 8 t3)))))
   \<and> ((\<forall>s. calls (snd (operation s)) = calls s @ [c]) \<longrightarrow>
        (\<exists>k. calls (snd (retry_operation self name operation s0))
                = calls s0 @ backoff c (retry_delay_base self) 0 k
                    @ (if isl (fst (retry_operation self name operation s0)) then [] else [c])
            \<and> (if isl (fst (retry_operation self name operation s0))
               then k = max_retries self else k < max_retries self)))
   \<and> ((\<forall>s. calls (snd (action s)) = calls s @ [d]) \<longrightarrow>
        (\<exists>k<n. calls (snd (retry_action action n delay t0)) = calls t0 @ backoff d delay 0 k @ [d])
        \<or> (calls (snd (retry_action action n delay t0)) = calls t0 @ backoff d delay 0 n
            \<and> fst (retry_action action n delay t0)
                = Inl (Exn Exception (''Failed after '' @ string_of_nat n @ '' attempts''))))"
proof (intro conjI impI)
  assume "max_retries self = 3 \<and> retry_delay_base self = 1"
  then show "retry_operation self name operation s0 =
       (case operation s0 of
          (Inr x, s1) \<Rightarrow> (Inr x, s1)
        | (Inl e1, s1) \<Rightarrow>
       (case operation (snd (sleep 1 s1)) of
          (Inr x, s2) \<Rightarrow> (Inr x, s2)
        | (Inl e2, s2) \<Rightarrow>
       (case operation (snd (sleep 2 s2)) of
          (Inr x, s3) \<Rightarrow> (Inr x, s3)
        | (Inl e3, s3) \<Rightarrow>
            (Inl (Exn TrelloProvisioningError
               (''Operation '' @ name @ '' failed after 3 attempts. Last error: '' @ str e3)),
             snd (sleep 4 s3)))))"
    by (simp add: retry_operation_three)
next
  show "retry_action action 3 2 t0 =
       (case action t0 of
          (Inr x, t1) \<Rightarrow> (Inr x, t1)
        | (Inl e1, t1) \<Rightarrow> if \<not> transient e1 then (Inl e1, t1) else
       (case action (snd (sleep 2 t1)) of
          (Inr x, t2) \<Rightarrow> (Inr x, t2)
        | (Inl e2, t2) \<Rightarrow> if \<not> transient e2 then (Inl e2, t2) else
       (case action (snd (sleep 4 t2)) of
          (Inr x, t3) \<Rightarrow> (Inr x, t3)
        | (Inl e3, t3) \<Rightarrow> if \<not> transient e3 then (Inl e3, t3) else
            (Inl (Exn Exception ''Failed after 3 attempts''), snd (sleep 8 t3)))))"
    by (rule retry_action_three)
next
  assume "\<forall>s. calls (snd (operation s)) = calls s @ [c]"
  then show "\<exists>k. calls (snd (retry_operation self name operation s0))
                = calls s0 @ backoff c (retry_delay_base self) 0 k
                    @ (if isl (fst (retry_operation self name operation s0)) then [] else [c])
            \<and> (if isl (fst (retry_operation self name operation s0))
               then k = max_retries self else k < max_retries self)"
    using retry_operation_calls [of operation c self name s0
        "fst (retry_operation self name operation s0)"
        "snd (retry_operation self name operation s0)"]
    by simp
next
  assume "\<forall>s. calls (snd (action s)) = calls s @ [d]"
  then show "(\<exists>k<n. calls (snd (retry_action action n delay t0)) = calls t0 @ backoff d delay 0 k @ [d])
        \<or> (calls (snd (retry_action action n delay t0)) = calls t0 @ backoff d delay 0 n
            \<and> fst (retry_action action n delay t0)
                = Inl (Exn Exception (''Failed after '' @ string_of_nat n @ '' attempts'')))"
    using retry_action_calls [of action d n delay t0
        "fst (retry_action action n delay t0)" "snd (retry_action action n delay t0)"]
    by simp
qed

text \<open>
  The example of the specification: a click that fails twice and then succeeds, under three
  attempts, gives the success after sleeps of 1 and 2 seconds (of 2 and 4 in part\_000).
\<close>

theorem retry_helpers_witness:
  "max_retries self0 = 3 \<and> retry_delay_base self0 = 1
   \<and> (\<forall>s. calls (snd (perform click_fails_twice no_result (Click 0) s)) = calls s @ [Click 0])
   \<and> retry_operation self0 ''click_operation''
        (perform click_fails_twice no_result (Click 0)) fresh
       = (Inr (), fresh\<lparr>calls := [Click 0, Sleep 1, Click 0, Sleep 2, Click 0]\<rparr>)
   \<and> retry_action (perform click_fails_twice no_result (Click 0)) 3 2 fresh
       = (Inr (), fresh\<lparr>calls := [Click 0, Sleep 2, Click 0, Sleep 4, Click 0]\<rparr>)"
proof -
  let ?click = "perform click_fails_twice no_result (Click 0)"
  have h: "max_retries self0 = 3 \<and> retry_delay_base self0 = 1"
    by (simp add: self0_def)
  have one: "\<forall>s. calls (snd (?click s)) = calls s @ [Click 0]"
    by (simp add: perform_def)
  note T = retry_helpers [of self0 "''click_operation''" ?click fresh ?click fresh
      "Click 0" "Click 0" 3 2]
  from T h have "retry_operation self0 ''click_operation'' ?click fresh =
       (case ?click fresh of
          (Inr x, s1) \<Rightarrow> (Inr x, s1)
        | (Inl e1, s1) \<Rightarrow>
       (case ?click (snd (sleep 1 s1)) of
          (Inr x, s2) \<Rightarrow> (Inr x, s2)
        | (Inl e2, s2) \<Rightarrow>
       (case ?click (snd (sleep 2 s2)) of
          (Inr x, s3) \<Rightarrow> (Inr x, s3)
        | (Inl e3, s3) \<Rightarrow>
            (Inl (Exn TrelloProvisioningError
               (''Operation '' @ ''click_operation''
                  @ '' failed after 3 attempts. Last error: '' @ str e3)),
             snd (sleep 4 s3)))))"
    by blast
  then have a: "retry_operation self0 ''click_operation'' ?click fresh
       = (Inr (), fresh\<lparr>calls := [Click 0, Sleep 1, Click 0, Sleep 2, Click 0]\<rparr>)"
    by (simp add: perform_def click_fails_twice_def fresh_def sleep_def no_result_def)
  from T have "retry_action ?click 3 2 fresh =
       (case ?click fresh of
          (Inr x, t1) \<Rightarrow> (Inr x, t1)
        | (Inl e1, t1) \<Rightarrow> if \<not> transient e1 then (Inl e1, t1) else
       (case ?click (snd (sleep 2 t1)) of
          (Inr x, t2) \<Rightarrow> (Inr x, t2)
        | (Inl e2, t2) \<Rightarrow> if \<not> transient e2 then (Inl e2, t2) else
       (case ?click (snd (sleep 4 t2)) of
          (Inr x, t3) \<Rightarrow> (Inr x, t3)
        | (Inl e3, t3) \<Rightarrow> if \<not> transient e3 then (Inl e3, t3) else
            (Inl (Exn Exception ''Failed after 3 attempts''), snd (sleep 8 t3)))))"
    by blast
  then have b: "retry_action ?click 3 2 fresh
       = (Inr (), fresh\<lparr>calls := [Click 0, Sleep 2, Click 0, Sleep 4, Click 0]\<rparr>)"
    by (simp add: perform_def click_fails_twice_def fresh_def sleep_def no_result_def)
  from h one a b show ?thesis by blast
qed

text \<open>
  C1 fails on both helpers. In part\_000 an action that times out at every attempt ends
  in \<open>Exception("Failed after 3 attempts")\<close>, which does not hold the text of the last
  timeout. In script.py a \<open>ValueError\<close>, which is none of the transient classes, is
  retried like any other exception.
\<close>

theorem retry_helper_counterexample:
  "fst (retry_action always_timeout 3 2 fresh) = Inl (Exn Exception ''Failed after 3 attempts'')
   \<and> \<not> sublist ''timed out'' (str (Exn Exception ''Failed after 3 attempts''))
   \<and> \<not> transient (Exn ValueError ''bad'')
   \<and> retry_operation self0 ''value_error_once'' value_error_once fresh
       = (Inr 7, fresh\<lparr>calls := [Sleep 1]\<rparr>)"
proof (intro conjI)
  show "fst (retry_action always_timeout 3 2 fresh) = Inl (Exn Exception ''Failed after 3 attempts'')"
    by (simp add: retry_action_three always_timeout_def raise_def sleep_def)
  show "\<not> sublist ''timed out'' (str (Exn Exception ''Failed after 3 attempts''))"
    by code_simp
  show "\<not> transient (Exn ValueError ''bad'')" by simp
  show "retry_operation self0 ''value_error_once'' value_error_once fresh
       = (Inr 7, fresh\<lparr>calls := [Sleep 1]\<rparr>)"
    by (simp add: retry_operation_three self0_def value_error_once_def fresh_def raise_def
        ret_def sleep_def)
qed

subsection \<open>Running the combinators\<close>

lemma ret_apply [simp]: "ret x s = (Inr x, s)"
  by (simp add: ret_def)

lemma raise_apply [simp]: "raise e s = (Inl e, s)"
  by (simp add: raise_def)

lemma lift_apply [simp]: "lift r s = (r, s)"
  by (simp add: lift_def)

lemma sleep_apply [simp]: "sleep d s = (Inr (), s\<lparr>calls := calls s @ [Sleep d]\<rparr>)"
  by (simp add: sleep_def)

lemma set_driver_apply [simp]: "set_driver d s = (Inr (), s\<lparr>driver := d\<rparr>)"
  by (simp add: set_driver_def)

lemma set_wait_apply [simp]: "set_wait w s = (Inr (), s\<lparr>wait := w\<rparr>)"
  by (simp add: set_wait_def)

lemma bindE_Inr: "m s = (Inr x, s') \<Longrightarrow> bindE m f s = f x s'"
  by (simp add: bindE_def)

lemma bindE_Inl: "m s = (Inl e, s') \<Longrightarrow> bindE m f s = (Inl e, s')"
  by (simp add: bindE_def)

lemma thenE_Inr: "m s = (Inr x, s') \<Longrightarrow> thenE m n s = n s'"
  by (simp add: thenE_def bindE_def)

lemma thenE_Inl: "m s = (Inl e, s') \<Longrightarrow> thenE m n s = (Inl e, s')"
  by (simp add: thenE_def bindE_def)

lemma tryE_Inr: "m s = (Inr x, s') \<Longrightarrow> tryE m h s = (Inr x, s')"
  by (simp add: tryE_def)

lemma tryE_Inl: "m s = (Inl e, s') \<Longrightarrow> tryE m h s = h e s'"
  by (simp add: tryE_def)

text \<open>A handler that returns makes the block return.\<close>

lemma tryE_ret_total: "\<exists>b s'. tryE m (\<lambda>e. ret (h e)) s = (Inr b, s')"
  by (cases "m s"; cases "fst (m s)") (auto simp: tryE_def)

lemma isinstance_simps [simp]:
  "isinstance (Exn NoSuchElementException m) NoSuchElementException"
  "isinstance (Exn TimeoutException m) TimeoutException"
  "\<not> isinstance (Exn AttributeError m) NoSuchElementException"
  "\<not> isinstance (Exn AttributeError m) TimeoutException"
  "\<not> isinstance (Exn TrelloProvisioningError m) NoSuchElementException"
  "\<not> isinstance (Exn TrelloProvisioningError m) CaptchaDetectedException"
  "isinstance (Exn CaptchaDetectedException m) CaptchaDetectedException"
  "isinstance (Exn CaptchaDetectedException m) TrelloProvisioningError"
  by (simp_all add: isinstance_def issubclass_def)

subsection \<open>The verifiers\<close>

lemma user_loop_no_elements:
  assumes "\<forall>h. \<forall>v \<in> set sels. elems_of B h (FindElements XPATH v) = []"
  shows "fst (user_loop B sels s) \<noteq> Inr True"
  using assms
proof (induction sels arbitrary: s)
  case Nil
  then show ?case by simp
next
  case (Cons v sels)
  then show ?case
    by (auto simp: find_elements_def on_driver_def perform_def
        split: option.splits prod.splits sum.splits)
qed

lemma success_loop_no_elements:
  assumes "\<forall>h. \<forall>v \<in> set sels. elems_of B h (FindElements XPATH v) = []"
  shows "fst (success_loop B sels s) = Inr False"
  using assms
proof (induction sels arbitrary: s)
  case Nil
  then show ?case by simp
next
  case (Cons v sels)
  then show ?case
    by (auto simp: find_elements_def on_driver_def perform_def bindE_def
        split: option.splits prod.splits sum.splits)
qed

lemma verify_user_added_total: "\<exists>b s'. verify_user_added B mail s = (Inr b, s')"
  unfolding verify_user_added_def by (rule tryE_ret_total)

lemma verify_user_addition_total: "\<exists>b s'. verify_user_addition B lower self s = (Inr b, s')"
  unfolding verify_user_addition_def by (rule tryE_ret_total)

lemma verify_user_added_no_elements:
  assumes "\<forall>h. \<forall>v \<in> set (user_verification_selectors mail @ success_selectors).
             elems_of B h (FindElements XPATH v) = []"
  shows "fst (verify_user_added B mail s) = Inr False"
proof -
  from assms have u: "\<forall>h. \<forall>v \<in> set (user_verification_selectors mail).
      elems_of B h (FindElements XPATH v) = []"
    and v: "\<forall>h. \<forall>v \<in> set success_selectors. elems_of B h (FindElements XPATH v) = []"
    by auto
  obtain r s1 where r: "user_loop B (user_verification_selectors mail) s = (r, s1)"
    by (cases "user_loop B (user_verification_selectors mail) s")
  with user_loop_no_elements [OF u, of s] have nt: "r \<noteq> Inr True" by simp
  show ?thesis
  proof (cases r)
    case (Inl e)
    with r show ?thesis by (simp add: verify_user_added_def tryE_def bindE_def)
  next
    case (Inr b)
    with nt have "r = Inr False" by simp
    with r success_loop_no_elements [OF v, of s1] show ?thesis
      by (cases "success_loop B success_selectors s1")
         (simp add: verify_user_added_def tryE_def bindE_def)
  qed
qed

lemma verify_user_addition_loop_never_found:
  assumes "\<forall>h t. fails B h (UntilPresence XPATH (member_xpath lower mail) t) \<noteq> None"
  shows "fst (verify_user_addition_loop B lower mail n s) \<noteq> Inr True"
  using assms
proof (induction n arbitrary: s)
  case 0
  then show ?case by simp
next
  case (Suc n)
  show ?case
  proof (cases "wait s")
    case None
    then show ?thesis by (simp add: on_wait_def)
  next
    case (Some t)
    from Suc.prems obtain e where
      "fails B (calls s) (UntilPresence XPATH (member_xpath lower mail) t) = Some e"
      by (meson option.exhaust)
    with Some Suc.IH [OF Suc.prems] show ?thesis
      by (simp add: on_wait_def perform_def)
  qed
qed

lemma verify_user_addition_never_found:
  assumes "\<forall>h t. fails B h (UntilPresence XPATH (member_xpath lower (new_user_email' self)) t) \<noteq> None"
  shows "fst (verify_user_addition B lower self s) = Inr False"
proof -
  obtain r s1 where r: "verify_user_addition_loop B lower (new_user_email' self) 3 s = (r, s1)"
    by (cases "verify_user_addition_loop B lower (new_user_email' self) 3 s")
  with verify_user_addition_loop_never_found [OF assms, of 3 s] have "r \<noteq> Inr True" by simp
  with r show ?thesis
    by (cases r) (auto simp: verify_user_addition_def tryE_def)
qed

text \<open>
  C2. Both verifiers return a boolean and never raise, whatever the e-mail address, the
  state and the browser's answers; when no lookup of a verification selector returns an
  element (in part\_000: when the wait for the member never succeeds), the result is
  \<open>False\<close>.
\<close>

theorem verifier_never_raises:
  "(\<exists>b s'. verify_user_added B mail s = (Inr b, s'))
   \<and> (\<exists>b s'. verify_user_addition B lower self s = (Inr b, s'))
   \<and> ((\<forall>h. \<forall>v \<in> set (user_verification_selectors mail @ success_selectors).
          elems_of B h (FindElements XPATH v) = [])
        \<longrightarrow> fst (verify_user_added B mail s) = Inr False)
   \<and> ((\<forall>h t. fails B h (UntilPresence XPATH (member_xpath lower (new_user_email' self)) t) \<noteq> None)
        \<longrightarrow> fst (verify_user_addition B lower self s) = Inr False)"
  using verify_user_added_total verify_user_addition_total
    verify_user_added_no_elements verify_user_addition_never_found
  by blast

text \<open>On a page on which nothing is found both verifiers report \<open>False\<close>.\<close>

theorem verifier_never_raises_witness:
  "fst (verify_user_added nothing_there ''newuser@example.com'' ready) = Inr False
   \<and> fst (verify_user_addition nothing_there ascii_lower self1 ready) = Inr False"
  using verifier_never_raises [where B = nothing_there and mail = "''newuser@example.com''"
      and s = ready and lower = ascii_lower and self = self1]
  by (simp add: nothing_there_def)
























subsection \<open>Cleanup\<close>

lemma cleanup_apply:
  "cleanup B s = (Inr (), if driver s = None then s else s\<lparr>calls := calls s @ [Quit]\<rparr>)"
  by (cases "driver s")
     (auto simp: cleanup_def tryE_def on_driver_def perform_def split: option.splits)

lemma cleanup'_apply:
  "cleanup' B s =
     (Inr (), (if driver s = None then s else s\<lparr>calls := calls s @ [Quit]\<rparr>)
                \<lparr>driver := None, wait := None\<rparr>)"
  by (cases "driver s")
     (auto simp: cleanup'_def thenE_def bindE_def tryE_def on_driver_def perform_def
        split: option.splits)

text \<open>
  C10. Neither \<open>cleanup\<close> raises, whatever \<open>quit\<close> does. Without a driver the
  \<open>cleanup\<close> of script.py changes nothing; with one it calls \<open>quit\<close> once. The
  \<open>cleanup\<close> of part\_000 also leaves \<open>driver\<close> and \<open>wait\<close> at \<open>None\<close>, so that a
  second call changes nothing and calls nothing.
\<close>

theorem cleanup_never_raises:
  "fst (cleanup B s) = Inr ()
   \<and> (driver s = None \<longrightarrow> cleanup B s = (Inr (), s))
   \<and> (driver s \<noteq> None \<longrightarrow> snd (cleanup B s) = s\<lparr>calls := calls s @ [Quit]\<rparr>)
   \<and> fst (cleanup' B s) = Inr ()
   \<and> driver (snd (cleanup' B s)) = None \<and> wait (snd (cleanup' B s)) = None
   \<and> (driver s \<noteq> None \<longrightarrow> calls (snd (cleanup' B s)) = calls s @ [Quit])
   \<and> cleanup' B (snd (cleanup' B s)) = (Inr (), snd (cleanup' B s))"
  by (simp add: cleanup_apply cleanup'_apply)

text \<open>With a driver whose \<open>quit\<close> raises, and without a driver.\<close>

theorem cleanup_never_raises_witness:
  "fails quit_fails (calls ready) Quit = Some (Exn WebDriverException ''session gone'')
   \<and> cleanup quit_fails ready = (Inr (), ready\<lparr>calls := [Quit]\<rparr>)
   \<and> cleanup quit_fails fresh = (Inr (), fresh)
   \<and> cleanup' quit_fails ready = (Inr (), fresh\<lparr>calls := [Quit]\<rparr>)
   \<and> cleanup' quit_fails (fresh\<lparr>calls := [Quit]\<rparr>) = (Inr (), fresh\<lparr>calls := [Quit]\<rparr>)"
  using cleanup_never_raises [of quit_fails ready] cleanup_never_raises [of quit_fails fresh]
    cleanup_never_raises [of quit_fails "fresh\<lparr>calls := [Quit]\<rparr>"]
  by (simp add: quit_fails_def ready_def fresh_def cleanup_apply cleanup'_apply)

subsection \<open>Construction\<close>

lemma unset_simps [simp]: "unset None" "unset (Some [])" "\<not> unset (Some (c # cs))"
  by (simp_all add: unset_def)

text \<open>
  C4. When \<open>TRELLO_USERNAME\<close> or \<open>TRELLO_PASSWORD\<close> is unset or empty, \<open>__init__\<close> of
  script.py raises \<open>TrelloProvisioningError\<close> and \<open>main\<close> ends with that exception;
  when \<open>TRELL_USERNAME\<close> or \<open>TRELL_PASSWORD\<close> is, \<open>__init__\<close> of part\_000 raises
  \<open>ValueError\<close>. In each case the history of calls is the one before the construction:
  nothing was asked of a browser.
\<close>

theorem missing_credentials:
  "(unset (environ ''TRELLO_USERNAME'') \<or> unset (environ ''TRELLO_PASSWORD'') \<longrightarrow>
      TrelloProvisioning_init environ hl wt s =
        (Inl (Exn TrelloProvisioningError credentials_missing),
         s\<lparr>driver := None, wait := None\<rparr>)
      \<and> main B environ a s =
        (Inl (Exn TrelloProvisioningError credentials_missing),
         s\<lparr>driver := None, wait := None\<rparr>)
      \<and> calls (snd (main B environ a s)) = calls s)
   \<and> (unset (environ ''TRELL_USERNAME'') \<or> unset (environ ''TRELL_PASSWORD'') \<longrightarrow>
      TrelloUserProvisioning_init environ hl wt s =
        (Inl (Exn ValueError ''TRELL_USERNAME or TRELL_PASSWORD missing in .env file.''),
         s\<lparr>driver := None, wait := None\<rparr>)
      \<and> calls (snd (TrelloUserProvisioning_init environ hl wt s)) = calls s)"
  by (auto simp: TrelloProvisioning_init_def TrelloUserProvisioning_init_def main_def
      load_credentials_def thenE_def bindE_def Let_def)

text \<open>
  Without \<open>TRELLO_PASSWORD\<close> the \<open>main\<close> of script.py ends with the error and an empty
  history; with an empty \<open>TRELL_USERNAME\<close> so does the constructor of part\_000.
\<close>

theorem missing_credentials_witness:
  "unset (no_password ''TRELLO_PASSWORD'')
   \<and> main nothing_there no_password args0 fresh =
        (Inl (Exn TrelloProvisioningError credentials_missing), fresh)
   \<and> unset (empty_username ''TRELL_USERNAME'')
   \<and> TrelloUserProvisioning_init empty_username True 30 fresh =
        (Inl (Exn ValueError ''TRELL_USERNAME or TRELL_PASSWORD missing in .env file.''), fresh)"
  using missing_credentials [of no_password True 10 fresh nothing_there args0]
    missing_credentials [of empty_username True 30 fresh nothing_there args0]
  by (simp add: no_password_def empty_username_def fresh_def)

text \<open>With both variables set the object is built, with three retries and base delay 1.\<close>

lemma init_ok:
  "TrelloProvisioning_init
     (\<lambda>k. if k = ''TRELLO_USERNAME'' then Some ''user@example.com''
          else if k = ''TRELLO_PASSWORD'' then Some ''secret'' else None) True 10 fresh
   = (Inr self0, fresh)"
  by (simp add: TrelloProvisioning_init_def load_credentials_def thenE_def bindE_def Let_def
      self0_def fresh_def)

subsection \<open>What a program adds to the history\<close>

named_theorems adds_intros

lemma addsI:
  assumes "\<And>s. driver (snd (m s)) = driver s" "\<And>s. wait (snd (m s)) = wait s"
    "\<And>s. \<exists>cs. calls (snd (m s)) = calls s @ cs \<and> list_all P cs"
  shows "adds P m"
  using assms by (simp add: adds_def)

lemma addsD:
  assumes "adds P m" "m s = (r, s')"
  shows "driver s' = driver s" "wait s' = wait s"
    "\<exists>cs. calls s' = calls s @ cs \<and> list_all P cs"
  using assms by (auto simp: adds_def dest: spec [of _ s])

lemma adds_mono: "adds P m \<Longrightarrow> (\<And>c. P c \<Longrightarrow> Q c) \<Longrightarrow> adds Q m"
  unfolding adds_def by (meson list.pred_mono_strong)

lemma adds_ret [adds_intros]: "adds P (ret x)"
  by (rule addsI) auto

lemma adds_raise [adds_intros]: "adds P (raise e)"
  by (rule addsI) auto

lemma adds_lift [adds_intros]: "adds P (lift r)"
  by (rule addsI) auto

lemma adds_sleep [adds_intros]: "P (Sleep d) \<Longrightarrow> adds P (sleep d)"
  by (rule addsI) auto

lemma adds_perform [adds_intros]: "P c \<Longrightarrow> adds P (perform B result c)"
  by (rule addsI) (auto simp: perform_def)

lemma adds_on_driver [adds_intros]: "P c \<Longrightarrow> adds P (on_driver B result c)"
  by (rule addsI) (auto simp: on_driver_def perform_def split: option.splits)

lemma adds_on_wait [adds_intros]: "(\<And>t. P (c t)) \<Longrightarrow> adds P (on_wait B result c)"
  by (rule addsI) (auto simp: on_wait_def perform_def split: option.splits)

lemma adds_seq:
  assumes m: "adds P m" and f: "\<And>r. adds P (f r)"
  shows "adds P (\<lambda>s. case m s of (r, s') \<Rightarrow> f r s')"
proof (rule addsI)
  fix s
  obtain r s1 where ms: "m s = (r, s1)" by (cases "m s")
  obtain r2 s2 where fs: "f r s1 = (r2, s2)" by (cases "f r s1")
  note a = addsD [OF m ms] and b = addsD [OF f fs]
  from ms fs a b show "driver (snd (case m s of (r, s') \<Rightarrow> f r s')) = driver s"
    "wait (snd (case m s of (r, s') \<Rightarrow> f r s')) = wait s"
    by simp_all
  from a(3) b(3) obtain cs1 cs2 where "calls s1 = calls s @ cs1" "list_all P cs1"
    "calls s2 = calls s1 @ cs2" "list_all P cs2" by blast
  with ms fs show "\<exists>cs. calls (snd (case m s of (r, s') \<Rightarrow> f r s')) = calls s @ cs \<and> list_all P cs"
    by (intro exI [of _ "cs1 @ cs2"]) simp
qed

lemma adds_const: "adds P (\<lambda>s. (r, s))"
  by (rule addsI) auto

lemma adds_bindE [adds_intros]:
  assumes "adds P m" "\<And>x. adds P (f x)"
  shows "adds P (bindE m f)"
proof -
  have "bindE m f = (\<lambda>s. case m s of (r, s') \<Rightarrow>
          (case r of Inl e \<Rightarrow> (\<lambda>s. (Inl e, s)) | Inr x \<Rightarrow> f x) s')"
    by (auto simp: bindE_def fun_eq_iff split: prod.splits sum.splits)
  moreover have "adds P (\<lambda>s. case m s of (r, s') \<Rightarrow>
          (case r of Inl e \<Rightarrow> (\<lambda>s. (Inl e, s)) | Inr x \<Rightarrow> f x) s')"
    using assms by (intro adds_seq) (auto split: sum.splits intro: adds_const)
  ultimately show ?thesis by simp
qed

lemma adds_thenE [adds_intros]: "adds P m \<Longrightarrow> adds P n \<Longrightarrow> adds P (thenE m n)"
  unfolding thenE_def by (rule adds_bindE)

lemma adds_tryE [adds_intros]:
  assumes "adds P m" "\<And>e. adds P (h e)"
  shows "adds P (tryE m h)"
proof -
  have "tryE m h = (\<lambda>s. case m s of (r, s') \<Rightarrow>
          (case r of Inl e \<Rightarrow> h e | Inr x \<Rightarrow> (\<lambda>s. (Inr x, s))) s')"
    by (auto simp: tryE_def fun_eq_iff split: prod.splits sum.splits)
  moreover have "adds P (\<lambda>s. case m s of (r, s') \<Rightarrow>
          (case r of Inl e \<Rightarrow> h e | Inr x \<Rightarrow> (\<lambda>s. (Inr x, s))) s')"
    using assms by (intro adds_seq) (auto split: sum.splits intro: adds_const)
  ultimately show ?thesis by simp
qed

lemma adds_except [adds_intros]:
  "adds P m \<Longrightarrow> (\<And>e. adds P (h e)) \<Longrightarrow> adds P (except m c h)"
  unfolding except_def by (intro adds_tryE) (auto intro: adds_raise)

lemma adds_if [adds_intros]: "adds P m \<Longrightarrow> adds P n \<Longrightarrow> adds P (if b then m else n)"
  by simp

lemma adds_case_option [adds_intros]:
  "adds P m \<Longrightarrow> (\<And>x. adds P (f x)) \<Longrightarrow> adds P (case v of None \<Rightarrow> m | Some x \<Rightarrow> f x)"
  by (cases v) simp_all

lemma adds_case_list [adds_intros]:
  "adds P m \<Longrightarrow> (\<And>x xs. adds P (f x xs)) \<Longrightarrow> adds P (case v of [] \<Rightarrow> m | x # xs \<Rightarrow> f x xs)"
  by (cases v) simp_all

lemma adds_after_call:
  assumes "P c" "adds P g"
  shows "adds P (\<lambda>s. g (s\<lparr>calls := calls s @ [c]\<rparr>))"
proof (rule addsI)
  fix s :: state
  let ?s = "s\<lparr>calls := calls s @ [c]\<rparr>"
  obtain r s' where g: "g ?s = (r, s')" by (cases "g ?s")
  note a = addsD [OF assms(2) g]
  from a g show "driver (snd (g ?s)) = driver s" "wait (snd (g ?s)) = wait s" by simp_all
  from a(3) obtain cs where "calls s' = calls ?s @ cs" "list_all P cs" by blast
  with assms(1) g show "\<exists>cs. calls (snd (g ?s)) = calls s @ cs \<and> list_all P cs"
    by (intro exI [of _ "c # cs"]) simp
qed

lemma adds_retry_loop:
  assumes "adds P operation" "\<And>d. P (Sleep d)"
  shows "adds P (retry_loop delay operation a n l)"
proof (induction n arbitrary: a l)
  case 0
  show ?case by (rule addsI) auto
next
  case (Suc n)
  let ?next = "\<lambda>r. case r of Inr x \<Rightarrow> (\<lambda>s. (Inr x, s))
           | Inl e \<Rightarrow> (\<lambda>s. retry_loop delay operation (Suc a) n (Some e)
                 (s\<lparr>calls := calls s @ [Sleep (delay * 2 ^ a)]\<rparr>))"
  have eq: "retry_loop delay operation a (Suc n) l =
      (\<lambda>s. case operation s of (r, s') \<Rightarrow> ?next r s')"
    by (auto simp: fun_eq_iff split: prod.splits sum.splits)
  have "adds P (?next r)" for r
    using assms(2) Suc by (cases r) (auto intro: adds_const adds_after_call)
  with assms(1) have "adds P (\<lambda>s. case operation s of (r, s') \<Rightarrow> ?next r s')"
    by (rule adds_seq)
  then show ?case by (simp only: eq)
qed

lemma adds_retry_operation [adds_intros]:
  assumes "adds P operation" "\<And>d. P (Sleep d)"
  shows "adds P (retry_operation self name operation)"
proof -
  have "retry_operation self name operation =
      (\<lambda>s. case retry_loop (retry_delay_base self) operation 0 (max_retries self) None s of
         (r, s') \<Rightarrow> (case r of Inr x \<Rightarrow> (\<lambda>s. (Inr x, s))
           | Inl last_exception \<Rightarrow> raise (Exn TrelloProvisioningError
            (''Operation '' @ name @ '' failed after '' @ string_of_nat (max_retries self)
              @ '' attempts'' @ ''. Last error: '' @ str_opt last_exception))) s')"
    by (auto simp: retry_operation_def fun_eq_iff split: prod.splits sum.splits)
  moreover have "adds P \<dots>"
    using assms
    by (intro adds_seq adds_retry_loop) (auto split: sum.splits intro: adds_const adds_raise)
  ultimately show ?thesis by simp
qed

lemma adds_click_operation: "adds (clicks element) (click_operation B element)"
  unfolding click_operation_def by (intro adds_intros) simp_all

lemma adds_safe_click: "adds (clicks element) (safe_click B self element)"
  unfolding safe_click_def by (intro adds_intros adds_click_operation) simp_all

subsection \<open>The ordered fallback search\<close>

lemma retry_operation_raises:
  "retry_operation self name operation s = (Inl x, s') \<Longrightarrow>
     \<exists>m. x = Exn TrelloProvisioningError m"
  by (auto simp: retry_operation_def split: prod.splits sum.splits)

lemma safe_click_raises:
  "safe_click B self element s = (Inl x, s') \<Longrightarrow> \<not> isinstance x NoSuchElementException"
  unfolding safe_click_def by (drule retry_operation_raises) auto

lemma find_element_apply:
  "driver s \<noteq> None \<Longrightarrow>
     find_element B b v s =
       ((case fails B (calls s) (FindElement b v) of
           Some e \<Rightarrow> Inl e
         | None \<Rightarrow> Inr (elem_of B (calls s) (FindElement b v))),
        s\<lparr>calls := calls s @ [FindElement b v]\<rparr>)"
  by (auto simp: find_element_def on_driver_def perform_def)

text \<open>Selectors that match nothing are looked up once each, in order, and passed.\<close>

lemma for_selectors_none:
  assumes "\<forall>h. \<forall>v \<in> set sels. \<exists>m. fails B h (FindElement XPATH v)
             = Some (Exn NoSuchElementException m)"
    and "driver s \<noteq> None"
  shows "for_selectors B act sels s =
     (Inr None, s\<lparr>calls := calls s @ map (FindElement XPATH) sels\<rparr>)"
  using assms
proof (induction sels arbitrary: s)
  case Nil
  then show ?case by simp
next
  case (Cons v sels)
  from Cons.prems obtain m where
    m: "fails B (calls s) (FindElement XPATH v) = Some (Exn NoSuchElementException m)"
    by (meson list.set_intros(1))
  let ?s1 = "s\<lparr>calls := calls s @ [FindElement XPATH v]\<rparr>"
  from Cons.prems have "for_selectors B act sels ?s1 =
      (Inr None, ?s1\<lparr>calls := calls ?s1 @ map (FindElement XPATH) sels\<rparr>)"
    by (intro Cons.IH) auto
  with m Cons.prems(2) show ?case
    by (simp add: bindE_def find_element_apply)
qed

lemma for_selectors_append:
  "for_selectors B act pre s = (Inr None, s1) \<Longrightarrow>
     for_selectors B act (pre @ rest) s = for_selectors B act rest s1"
proof (induction pre arbitrary: s)
  case Nil
  then show ?case by simp
next
  case (Cons v pre)
  then show ?case
    by (auto split: prod.splits sum.splits if_splits)
qed

lemma for_selectors_skip:
  assumes "\<forall>h. \<forall>v \<in> set pre. \<exists>m. fails B h (FindElement XPATH v)
             = Some (Exn NoSuchElementException m)"
    and "driver s \<noteq> None"
  shows "for_selectors B act (pre @ rest) s =
     for_selectors B act rest (s\<lparr>calls := calls s @ map (FindElement XPATH) pre\<rparr>)"
  using for_selectors_append [OF for_selectors_none [OF assms]] .

text \<open>The selector the search stops at or fails at.\<close>

lemma for_selectors_found:
  assumes "driver s \<noteq> None" "fails B (calls s) (FindElement XPATH v) = None"
  shows "for_selectors B act (v # rest) s =
     (case act (elem_of B (calls s) (FindElement XPATH v))
             (s\<lparr>calls := calls s @ [FindElement XPATH v]\<rparr>) of
        (Inr u, s') \<Rightarrow> (Inr (Some (elem_of B (calls s) (FindElement XPATH v))), s')
      | (Inl x, s') \<Rightarrow>
          if isinstance x NoSuchElementException then for_selectors B act rest s'
          else (Inl x, s'))"
  using assms
  by (auto simp: bindE_def thenE_def find_element_apply split: prod.splits sum.splits)


lemma click_operation_first:
  "\<exists>cs. calls (snd (click_operation B e s)) = calls s @ Click e # cs \<and> list_all (clicks e) cs"
  by (auto simp: click_operation_def except_def tryE_def perform_def on_driver_def
      split: option.splits)

lemma safe_click_first:
  assumes "0 < max_retries self"
  shows "\<exists>cs. calls (snd (safe_click B self e s)) = calls s @ Click e # cs
            \<and> list_all (clicks e) cs"
proof -
  from assms obtain n where n: "max_retries self = Suc n" by (cases "max_retries self") auto
  let ?loop = "retry_loop (retry_delay_base self) (click_operation B e)"
  obtain r1 s1 where c: "click_operation B e s = (r1, s1)" by (cases "click_operation B e s")
  with click_operation_first [of B e s] obtain cs1 where
    cs1: "calls s1 = calls s @ Click e # cs1" "list_all (clicks e) cs1" by auto
  have "\<exists>cs. calls (snd (?loop 0 (Suc n) None s)) = calls s @ Click e # cs
            \<and> list_all (clicks e) cs"
  proof (cases r1)
    case (Inr x)
    with c cs1 show ?thesis by simp
  next
    case (Inl x)
    let ?s2 = "s1\<lparr>calls := calls s1 @ [Sleep (retry_delay_base self * 2 ^ 0)]\<rparr>"
    obtain r3 s3 where l: "?loop (Suc 0) n (Some x) ?s2 = (r3, s3)"
      by (cases "?loop (Suc 0) n (Some x) ?s2")
    have "adds (clicks e) (?loop (Suc 0) n (Some x))"
      by (rule adds_retry_loop [OF adds_click_operation]) simp
    from addsD(3) [OF this l] obtain cs3 where
      "calls s3 = calls ?s2 @ cs3" "list_all (clicks e) cs3" by blast
    with Inl c l cs1 show ?thesis by simp
  qed
  moreover have "snd (safe_click B self e s) = snd (?loop 0 (Suc n) None s)"
    by (auto simp: safe_click_def retry_operation_def n split: prod.splits sum.splits)
  ultimately show ?thesis by simp
qed

lemma fill_first:
  "\<exists>cs. calls (snd (fill B mail e s)) = calls s @ Clear e # cs"
  by (auto simp: fill_def thenE_def bindE_def perform_def split: option.splits)

lemma for_selectors_at:
  assumes "driver s \<noteq> None"
    and "\<forall>h. \<forall>v \<in> set pre. \<exists>m. fails B h (FindElement XPATH v)
           = Some (Exn NoSuchElementException m)"
    and "fails B (calls s @ map (FindElement XPATH) pre) (FindElement XPATH v) = None"
    and "e = elem_of B (calls s @ map (FindElement XPATH) pre) (FindElement XPATH v)"
    and "s2 = s\<lparr>calls := calls s @ map (FindElement XPATH) pre @ [FindElement XPATH v]\<rparr>"
  shows "for_selectors B act (pre @ v # post) s =
       (case act e s2 of
          (Inr u, s3) \<Rightarrow> (Inr (Some e), s3)
        | (Inl x, s3) \<Rightarrow>
            if isinstance x NoSuchElementException then for_selectors B act post s3
            else (Inl x, s3))"
proof -
  let ?s1 = "s\<lparr>calls := calls s @ map (FindElement XPATH) pre\<rparr>"
  have "for_selectors B act (pre @ v # post) s = for_selectors B act (v # post) ?s1"
    using assms(2,1) by (rule for_selectors_skip)
  also have "\<dots> = (case act (elem_of B (calls ?s1) (FindElement XPATH v))
             (?s1\<lparr>calls := calls ?s1 @ [FindElement XPATH v]\<rparr>) of
        (Inr u, s') \<Rightarrow> (Inr (Some (elem_of B (calls ?s1) (FindElement XPATH v))), s')
      | (Inl x, s') \<Rightarrow>
          if isinstance x NoSuchElementException then for_selectors B act post s'
          else (Inl x, s'))"
    using assms(1,3) by (intro for_selectors_found) simp_all
  finally have run: "for_selectors B act (pre @ v # post) s =
      (case act (elem_of B (calls ?s1) (FindElement XPATH v))
             (?s1\<lparr>calls := calls ?s1 @ [FindElement XPATH v]\<rparr>) of
        (Inr u, s') \<Rightarrow> (Inr (Some (elem_of B (calls ?s1) (FindElement XPATH v))), s')
      | (Inl x, s') \<Rightarrow>
          if isinstance x NoSuchElementException then for_selectors B act post s'
          else (Inl x, s'))" .
  have e: "elem_of B (calls ?s1) (FindElement XPATH v) = e"
    using assms(4) by simp
  have s2: "?s1\<lparr>calls := calls ?s1 @ [FindElement XPATH v]\<rparr> = s2"
    using assms(5) by simp
  from run show ?thesis unfolding e s2 .
qed

lemma for_selectors_click_at:
  assumes "driver s \<noteq> None"
    and "\<forall>h. \<forall>v \<in> set pre. \<exists>m. fails B h (FindElement XPATH v)
           = Some (Exn NoSuchElementException m)"
    and "fails B (calls s @ map (FindElement XPATH) pre) (FindElement XPATH v) = None"
    and "e = elem_of B (calls s @ map (FindElement XPATH) pre) (FindElement XPATH v)"
    and "s2 = s\<lparr>calls := calls s @ map (FindElement XPATH) pre @ [FindElement XPATH v]\<rparr>"
  shows "for_selectors B (safe_click B self) (pre @ v # post) s =
       (case safe_click B self e s2 of
          (Inr u, s3) \<Rightarrow> (Inr (Some e), s3)
        | (Inl x, s3) \<Rightarrow> (Inl x, s3))"
  using for_selectors_at [OF assms, of "safe_click B self" post]
  by (auto split: prod.splits sum.splits dest: safe_click_raises)

lemma for_selectors_click_calls:
  assumes "driver s \<noteq> None"
    and "\<forall>h. \<forall>v \<in> set pre. \<exists>m. fails B h (FindElement XPATH v)
           = Some (Exn NoSuchElementException m)"
    and "fails B (calls s @ map (FindElement XPATH) pre) (FindElement XPATH v) = None"
    and "e = elem_of B (calls s @ map (FindElement XPATH) pre) (FindElement XPATH v)"
  shows "\<exists>cs. calls (snd (for_selectors B (safe_click B self) (pre @ v # post) s))
              = calls s @ map (FindElement XPATH) pre @ [FindElement XPATH v] @ cs
          \<and> list_all (clicks e) cs
          \<and> (0 < max_retries self \<longrightarrow> cs \<noteq> [] \<and> hd cs = Click e)"
proof -
  let ?s2 = "s\<lparr>calls := calls s @ map (FindElement XPATH) pre @ [FindElement XPATH v]\<rparr>"
  obtain r3 s3 where c: "safe_click B self e ?s2 = (r3, s3)"
    by (cases "safe_click B self e ?s2")
  from addsD(3) [OF adds_safe_click c] obtain cs where
    cs: "calls s3 = calls ?s2 @ cs" "list_all (clicks e) cs" by blast
  have "0 < max_retries self \<Longrightarrow> cs \<noteq> [] \<and> hd cs = Click e"
    using safe_click_first [of self B e ?s2] c cs by auto
  moreover have "snd (for_selectors B (safe_click B self) (pre @ v # post) s) = s3"
    using for_selectors_click_at [OF assms refl, of self post] c
    by (auto split: sum.splits)
  ultimately show ?thesis using cs by auto
qed

text \<open>
  C3, as the code has it. When the selectors before the k-th match nothing and the
  k-th is found, the search acts on the element found for the k-th, in the state right
  after the k lookups. It ends there, with that element or with the failure of the
  action, unless the action itself raises \<open>NoSuchElementException\<close>: then the search
  goes on with the selectors after the k-th. A click never does so, since \<open>_safe_click\<close>
  raises nothing but \<open>TrelloProvisioningError\<close>: in the three click searches everything
  that follows the k-th lookup is a click on that element or a sleep of the retry, and no
  further selector is looked up. In the e-mail search the first call after the k-th
  lookup clears that element.
\<close>

theorem first_match_is_acted_on:
  assumes "driver s \<noteq> None"
    and "\<forall>h. \<forall>v \<in> set pre. \<exists>m. fails B h (FindElement XPATH v)
           = Some (Exn NoSuchElementException m)"
    and "fails B (calls s @ map (FindElement XPATH) pre) (FindElement XPATH v) = None"
    and "e = elem_of B (calls s @ map (FindElement XPATH) pre) (FindElement XPATH v)"
    and "s2 = s\<lparr>calls := calls s @ map (FindElement XPATH) pre @ [FindElement XPATH v]\<rparr>"
  shows "for_selectors B act (pre @ v # post) s =
       (case act e s2 of
          (Inr u, s3) \<Rightarrow> (Inr (Some e), s3)
        | (Inl x, s3) \<Rightarrow>
            if isinstance x NoSuchElementException then for_selectors B act post s3
            else (Inl x, s3))
   \<and> for_selectors B (safe_click B self) (pre @ v # post) s =
       (case safe_click B self e s2 of
          (Inr u, s3) \<Rightarrow> (Inr (Some e), s3)
        | (Inl x, s3) \<Rightarrow> (Inl x, s3))
   \<and> (\<exists>cs. calls (snd (for_selectors B (safe_click B self) (pre @ v # post) s))
              = calls s @ map (FindElement XPATH) pre @ [FindElement XPATH v] @ cs
          \<and> list_all (clicks e) cs
          \<and> (0 < max_retries self \<longrightarrow> cs \<noteq> [] \<and> hd cs = Click e))
   \<and> (\<exists>cs. calls (snd (fill B mail e s2)) = calls s2 @ Clear e # cs)"
  using for_selectors_at [OF assms] for_selectors_click_at [OF assms]
    for_selectors_click_calls [OF assms(1-4)] fill_first
  by blast

text \<open>
  The example of the specification: only the third of the invite selectors matches. The
  search clicks its element and looks no later selector up.
\<close>

theorem first_match_is_acted_on_witness:
  "for_selectors third_matches (safe_click third_matches self0) invite_selectors ready =
     (Inr (Some 7),
      ready\<lparr>calls := [FindElement XPATH (invite_selectors ! 0),
                       FindElement XPATH (invite_selectors ! 1),
                       FindElement XPATH (invite_selectors ! 2), Click 7]\<rparr>)"
proof -
  let ?pre = "take 2 invite_selectors" and ?v = "invite_selectors ! 2"
    and ?post = "drop 3 invite_selectors"
  let ?s2 = "ready\<lparr>calls := calls ready @ map (FindElement XPATH) ?pre
                @ [FindElement XPATH ?v]\<rparr>"
  have h1: "driver ready \<noteq> None" by (simp add: ready_def)
  have h2: "\<forall>h. \<forall>v \<in> set ?pre. \<exists>m. fails third_matches h (FindElement XPATH v)
           = Some (Exn NoSuchElementException m)"
    by (simp add: third_matches_def invite_selectors_def)
  have h3: "fails third_matches (calls ready @ map (FindElement XPATH) ?pre)
              (FindElement XPATH ?v) = None"
    by (simp add: third_matches_def)
  have h4: "7 = elem_of third_matches (calls ready @ map (FindElement XPATH) ?pre)
              (FindElement XPATH ?v)"
    by (simp add: third_matches_def)
  have split: "?pre @ ?v # ?post = invite_selectors"
    by (simp add: invite_selectors_def)
  from first_match_is_acted_on [OF h1 h2 h3 h4 refl, of "safe_click third_matches self0" ?post self0]
  have "for_selectors third_matches (safe_click third_matches self0) (?pre @ ?v # ?post) ready =
       (case safe_click third_matches self0 7 ?s2 of
          (Inr u, s3) \<Rightarrow> (Inr (Some 7), s3)
        | (Inl x, s3) \<Rightarrow> (Inl x, s3))"
    by blast
  moreover have "safe_click third_matches self0 7 ?s2 =
      (Inr (), ?s2\<lparr>calls := calls ?s2 @ [Click 7]\<rparr>)"
    by (simp add: safe_click_def retry_operation_three self0_def click_operation_def
        except_def tryE_def perform_def third_matches_def)
  ultimately show ?thesis
    unfolding split by (simp add: ready_def invite_selectors_def)
qed

text \<open>
  C3 fails in the e-mail search: the first selector matches element 1, clearing it
  raises \<open>NoSuchElementException\<close>, and the search looks the second selector up and
  fills its element 2.
\<close>

theorem first_match_counterexample:
  "fails clear_not_found (calls ready) (FindElement XPATH (email_selectors ! 0)) = None
   \<and> elem_of clear_not_found (calls ready) (FindElement XPATH (email_selectors ! 0)) = 1
   \<and> for_selectors clear_not_found (fill clear_not_found ''newuser@example.com'')
        email_selectors ready =
       (Inr (Some 2),
        ready\<lparr>calls := [FindElement XPATH (email_selectors ! 0), Clear 1,
                         FindElement XPATH (email_selectors ! 1), Clear 2,
                         SendKeys 2 ''newuser@example.com'']\<rparr>)"
  by (simp add: clear_not_found_def email_selectors_def ready_def fill_def thenE_def bindE_def
      find_element_def on_driver_def perform_def isinstance_def issubclass_def)

subsection \<open>Failures inside a search\<close>









subsection \<open>The steps of the workflow stay inside the session\<close>

lemma adds_in_session_safe_click [adds_intros]: "adds in_session (safe_click B self e)"
  by (rule adds_mono [OF adds_safe_click]) (auto elim: clicks.elims)

lemma adds_find_element [adds_intros]: "P (FindElement b v) \<Longrightarrow> adds P (find_element B b v)"
  unfolding find_element_def by (rule adds_on_driver)

lemma adds_find_elements [adds_intros]: "P (FindElements b v) \<Longrightarrow> adds P (find_elements B b v)"
  unfolding find_elements_def by (rule adds_on_driver)

lemma adds_wait_and_find_element [adds_intros]:
  "(\<And>t. P (UntilPresence b v t)) \<Longrightarrow> adds P (wait_and_find_element B self b v timeout)"
  unfolding wait_and_find_element_def Let_def by (rule adds_on_driver)

lemma adds_loop_step:
  assumes "adds P m" "\<And>r. adds P (f r)"
  shows "adds P (\<lambda>s. case m s of (r, s') \<Rightarrow> f r s')"
  using assms by (rule adds_seq)

lemma adds_check_for_captcha_loop: "adds is_lookup (check_for_captcha_loop B sels)"
proof (induction sels)
  case Nil
  show ?case by (rule addsI) auto
next
  case (Cons v sels)
  let ?next = "\<lambda>r. case r of Inr elements \<Rightarrow>
        if elements \<noteq> [] then (\<lambda>s. (Inr True, s)) else check_for_captcha_loop B sels
      | Inl e \<Rightarrow> check_for_captcha_loop B sels"
  have eq: "check_for_captcha_loop B (v # sels) =
      (\<lambda>s. case find_elements B CSS_SELECTOR v s of (r, s') \<Rightarrow> ?next r s')"
    by (auto simp: fun_eq_iff split: prod.splits sum.splits)
  have "adds is_lookup (?next r)" for r
    using Cons by (cases r) (auto intro: adds_const)
  then have "adds is_lookup (\<lambda>s. case find_elements B CSS_SELECTOR v s of (r, s') \<Rightarrow> ?next r s')"
    by (intro adds_seq adds_find_elements) simp_all
  then show ?case by (simp only: eq)
qed

lemma adds_check_for_captcha: "adds is_lookup (check_for_captcha B)"
  unfolding check_for_captcha_def by (rule adds_check_for_captcha_loop)

lemma adds_handle_captcha [adds_intros]: "adds in_session (handle_captcha_if_present B self)"
  unfolding handle_captcha_if_present_def
  by (intro adds_intros adds_mono [OF adds_check_for_captcha]) (auto elim: is_lookup.elims)

lemma adds_still_on_login [adds_intros]: "adds in_session (still_on_login B)"
  unfolding still_on_login_def by (intro adds_intros) simp_all

lemma adds_login: "adds in_session (login B self)"
  unfolding login_def login_steps_def enter_credentials_def submit_login_def
  by (intro adds_intros) simp_all

lemma adds_for_selectors [adds_intros]:
  assumes "\<And>e. adds P (act e)" "\<And>v. P (FindElement XPATH v)"
  shows "adds P (for_selectors B act sels)"
proof (induction sels)
  case Nil
  show ?case by (rule addsI) auto
next
  case (Cons v sels)
  let ?step = "bindE (find_element B XPATH v) (\<lambda>element. thenE (act element) (ret element))"
  let ?next = "\<lambda>r. case r of Inr element \<Rightarrow> (\<lambda>s. (Inr (Some element), s))
      | Inl e \<Rightarrow> if isinstance e NoSuchElementException then for_selectors B act sels
                 else (\<lambda>s. (Inl e, s))"
  have eq: "for_selectors B act (v # sels) = (\<lambda>s. case ?step s of (r, s') \<Rightarrow> ?next r s')"
    by (auto simp: fun_eq_iff split: prod.splits sum.splits)
  have "adds P (?next r)" for r
    using Cons by (cases r) (auto intro: adds_const)
  moreover have "adds P ?step"
    using assms by (intro adds_intros) simp_all
  ultimately have "adds P (\<lambda>s. case ?step s of (r, s') \<Rightarrow> ?next r s')"
    by (intro adds_seq)
  then show ?case by (simp only: eq)
qed

lemma adds_fill [adds_intros]: "adds in_session (fill B mail e)"
  unfolding fill_def by (intro adds_intros) simp_all

lemma adds_navigate: "adds in_session (navigate_to_workspace B self ws)"
  unfolding navigate_to_workspace_def by (intro adds_intros) simp_all

lemma adds_add_new_user: "adds in_session (add_new_user B self mail)"
  unfolding add_new_user_def by (intro adds_intros) simp_all

lemma adds_user_loop: "adds in_session (user_loop B sels)"
proof (induction sels)
  case Nil
  show ?case by (rule addsI) auto
next
  case (Cons v sels)
  let ?next = "\<lambda>r. case r of Inr user_elements \<Rightarrow>
        if user_elements \<noteq> [] then (\<lambda>s. (Inr True, s)) else user_loop B sels
      | Inl e \<Rightarrow> if isinstance e NoSuchElementException then user_loop B sels
                 else (\<lambda>s. (Inl e, s))"
  have eq: "user_loop B (v # sels) =
      (\<lambda>s. case find_elements B XPATH v s of (r, s') \<Rightarrow> ?next r s')"
    by (auto simp: fun_eq_iff split: prod.splits sum.splits)
  have "adds in_session (?next r)" for r
    using Cons by (cases r) (auto intro: adds_const)
  then have "adds in_session (\<lambda>s. case find_elements B XPATH v s of (r, s') \<Rightarrow> ?next r s')"
    by (intro adds_seq adds_find_elements) simp_all
  then show ?case by (simp only: eq)
qed

lemma adds_success_loop: "adds in_session (success_loop B sels)"
proof (induction sels)
  case Nil
  show ?case by (rule addsI) auto
next
  case (Cons v sels)
  let ?step = "bindE (find_elements B XPATH v) (\<lambda>success_elements.
             case success_elements of
               [] \<Rightarrow> ret False
             | first # _ \<Rightarrow> thenE (perform B (str_of B) (Text first)) (ret True))"
  let ?next = "\<lambda>r. case r of Inr found \<Rightarrow>
        if found then (\<lambda>s. (Inr True, s)) else success_loop B sels
      | Inl e \<Rightarrow> success_loop B sels"
  have eq: "success_loop B (v # sels) = (\<lambda>s. case ?step s of (r, s') \<Rightarrow> ?next r s')"
    by (auto simp: fun_eq_iff split: prod.splits sum.splits)
  have "adds in_session (?next r)" for r
    using Cons by (cases r) (auto intro: adds_const)
  moreover have "adds in_session ?step"
    by (intro adds_intros) simp_all
  ultimately have "adds in_session (\<lambda>s. case ?step s of (r, s') \<Rightarrow> ?next r s')"
    by (intro adds_seq)
  then show ?case by (simp only: eq)
qed

lemma adds_verify_user_added: "adds in_session (verify_user_added B mail)"
  unfolding verify_user_added_def
  by (intro adds_intros adds_user_loop adds_success_loop)

text \<open>Everything \<open>run_provisioning\<close> does after \<open>_setup_driver\<close> and before \<open>cleanup\<close>.\<close>

lemma adds_workflow:
  "adds in_session
     (thenE (login B self)
     (thenE (navigate_to_workspace B self ws)
     (thenE (add_new_user B self mail) (verify_user_added B mail))))"
  by (intro adds_thenE adds_login adds_navigate adds_add_new_user adds_verify_user_added)

subsection \<open>The run\<close>

lemma setup_driver_cases:
  assumes "driver s = None"
  obtains
    (no_install) "fails B (calls s) Install \<noteq> None"
      "snd (setup_driver B self s) = s\<lparr>calls := calls s @ [Install]\<rparr>"
      "isl (fst (setup_driver B self s))"
  | (no_chrome) "fails B (calls s) Install = None"
      "fails B (calls s @ [Install]) (NewChrome (headless self)) \<noteq> None"
      "snd (setup_driver B self s) = s\<lparr>calls := calls s @ [Install, NewChrome (headless self)]\<rparr>"
      "isl (fst (setup_driver B self s))"
  | (started) cs where "fails B (calls s) Install = None"
      "fails B (calls s @ [Install]) (NewChrome (headless self)) = None"
      "calls (snd (setup_driver B self s))
         = calls s @ [Install, NewChrome (headless self)] @ cs"
      "list_all in_session cs" "driver (snd (setup_driver B self s)) = Some ()"
proof (cases "fails B (calls s) Install")
  case (Some e)
  then show ?thesis
    by (intro no_install) (simp_all add: setup_driver_def tryE_def thenE_def bindE_def perform_def)
next
  case None
  show ?thesis
  proof (cases "fails B (calls s @ [Install]) (NewChrome (headless self))")
    case (Some e)
    with None show ?thesis
      by (intro no_chrome)
         (simp_all add: setup_driver_def tryE_def thenE_def bindE_def perform_def)
  next
    case n2: None
    let ?s1 = "s\<lparr>calls := calls s @ [Install, NewChrome (headless self)], driver := Some ()\<rparr>"
    let ?rest = "thenE (on_driver B no_result (SetPageLoadTimeout 30))
       (thenE (on_driver B no_result (ImplicitlyWait 5))
       (thenE (set_wait (Some (wait_timeout self)))
       (if \<not> headless self then on_driver B no_result MaximizeWindow else ret ())))"
    have run: "setup_driver B self s =
        tryE ?rest
          (\<lambda>e. raise (Exn TrelloProvisioningError (''Failed to setup WebDriver: '' @ str e))) ?s1"
      using None n2
      by (simp add: setup_driver_def tryE_def thenE_def bindE_def perform_def)
    have "driver (snd (setup_driver B self s)) = Some ()
        \<and> (\<exists>cs. calls (snd (setup_driver B self s)) = calls ?s1 @ cs \<and> list_all in_session cs)"
      unfolding run
      by (auto simp: tryE_def thenE_def bindE_def on_driver_def perform_def
          split: option.splits)
    then obtain cs where "calls (snd (setup_driver B self s))
         = calls s @ [Install, NewChrome (headless self)] @ cs"
      "list_all in_session cs" "driver (snd (setup_driver B self s)) = Some ()"
      by auto
    with None n2 show ?thesis by (intro started)
  qed
qed

lemma run_provisioning_apply:
  "run_provisioning B self mail ws s =
     (case thenE (setup_driver B self)
            (thenE (login B self)
            (thenE (navigate_to_workspace B self ws)
            (thenE (add_new_user B self mail) (verify_user_added B mail)))) s of
        (r, s') \<Rightarrow>
          (Inr (case r of Inl e \<Rightarrow> False | Inr success \<Rightarrow> success),
           if driver s' = None then s' else s'\<lparr>calls := calls s' @ [Quit]\<rparr>))"
  by (auto simp: run_provisioning_def bindE_def tryE_def thenE_def cleanup_apply
      split: prod.splits sum.splits)

lemma run_provisioning_total: "\<exists>b. fst (run_provisioning B self mail ws s) = Inr b"
  by (simp add: run_provisioning_apply split: prod.splits)

lemma run_provisioning_calls:
  assumes "driver s = None"
  shows "(fails B (calls s) Install = None
          \<and> fails B (calls s @ [Install]) (NewChrome (headless self)) = None \<longrightarrow>
            (\<exists>cs. calls (snd (run_provisioning B self mail ws s))
                    = calls s @ [Install, NewChrome (headless self)] @ cs @ [Quit]
                 \<and> list_all in_session cs))
       \<and> (fails B (calls s) Install \<noteq> None \<longrightarrow>
            calls (snd (run_provisioning B self mail ws s)) = calls s @ [Install])
       \<and> (fails B (calls s) Install = None
          \<and> fails B (calls s @ [Install]) (NewChrome (headless self)) \<noteq> None \<longrightarrow>
            calls (snd (run_provisioning B self mail ws s))
              = calls s @ [Install, NewChrome (headless self)])"
proof -
  let ?rest = "thenE (login B self)
            (thenE (navigate_to_workspace B self ws)
            (thenE (add_new_user B self mail) (verify_user_added B mail)))"
  let ?s1 = "snd (setup_driver B self s)"
  obtain r1 where r1: "setup_driver B self s = (r1, ?s1)"
    by (cases "setup_driver B self s") simp
  from assms show ?thesis
  proof (cases rule: setup_driver_cases [where B = B and self = self])
    case no_install
    with r1 have "thenE (setup_driver B self) ?rest s = (Inl (projl r1), ?s1)"
      by (cases r1) (simp_all add: thenE_Inl)
    with no_install assms show ?thesis
      unfolding run_provisioning_apply by simp
  next
    case no_chrome
    with r1 have "thenE (setup_driver B self) ?rest s = (Inl (projl r1), ?s1)"
      by (cases r1) (simp_all add: thenE_Inl)
    with no_chrome assms show ?thesis
      unfolding run_provisioning_apply by simp
  next
    case (started cs)
    obtain r2 s2 where r2: "?rest ?s1 = (r2, s2)" by (cases "?rest ?s1")
    from addsD [OF adds_workflow r2] started obtain cs2 where
      s2: "driver s2 = Some ()" "calls s2 = calls ?s1 @ cs2" "list_all in_session cs2"
      by auto
    have body: "thenE (setup_driver B self) ?rest s =
        (if isl r1 then (Inl (projl r1), ?s1) else (r2, s2))"
    proof (cases r1)
      case (Inl e)
      with r1 show ?thesis by (simp add: thenE_Inl)
    next
      case (Inr u)
      with r1 r2 show ?thesis by (simp add: thenE_Inr)
    qed
    have "calls (snd (run_provisioning B self mail ws s))
        = calls s @ [Install, NewChrome (headless self)]
            @ (if isl r1 then cs else cs @ cs2) @ [Quit]"
      unfolding run_provisioning_apply body using s2 started by simp
    moreover have "list_all in_session (if isl r1 then cs else cs @ cs2)"
      using started s2 by simp
    ultimately show ?thesis using started by blast
  qed
qed

text \<open>
  C7. A run that starts without a driver always returns a boolean. If the browser
  starts, the history of the run is: the two calls that start it, calls inside the
  session, and \<open>quit\<close>, once, as the last call; this holds whichever step fails and
  however it fails. If the browser does not start, the run makes no call after the failed
  one: there is no session to release.
\<close>

theorem session_released_once:
  assumes "driver s = None"
  shows "(\<exists>b. fst (run_provisioning B self mail ws s) = Inr b)
       \<and> (fails B (calls s) Install = None
          \<and> fails B (calls s @ [Install]) (NewChrome (headless self)) = None \<longrightarrow>
            (\<exists>cs. calls (snd (run_provisioning B self mail ws s))
                    = calls s @ [Install, NewChrome (headless self)] @ cs @ [Quit]
                 \<and> list_all in_session cs))
       \<and> (fails B (calls s) Install \<noteq> None \<longrightarrow>
            calls (snd (run_provisioning B self mail ws s)) = calls s @ [Install])
       \<and> (fails B (calls s) Install = None
          \<and> fails B (calls s @ [Install]) (NewChrome (headless self)) \<noteq> None \<longrightarrow>
            calls (snd (run_provisioning B self mail ws s))
              = calls s @ [Install, NewChrome (headless self)])"
  using run_provisioning_total [of B self mail ws s] run_provisioning_calls [OF assms]
  by blast

lemma in_session_no_quit: "list_all in_session cs \<Longrightarrow> count_list cs Quit = 0"
  by (induction cs) auto

text \<open>
  A run in which every step works and \<open>quit\<close> itself raises: it still returns, and
  \<open>quit\<close> is its last call and occurs once.
\<close>

theorem session_released_once_witness:
  "driver fresh = None
   \<and> fails quit_fails (calls fresh) Install = None
   \<and> fails quit_fails (calls fresh @ [Install]) (NewChrome (headless self0)) = None
   \<and> \<not> isl (fst (run_provisioning quit_fails self0 ''newuser@example.com'' ''Project X'' fresh))
   \<and> last (calls (snd (run_provisioning quit_fails self0 ''newuser@example.com''
              ''Project X'' fresh))) = Quit
   \<and> count_list (calls (snd (run_provisioning quit_fails self0 ''newuser@example.com''
              ''Project X'' fresh))) Quit = 1"
proof -
  let ?run = "run_provisioning quit_fails self0 ''newuser@example.com'' ''Project X'' fresh"
  have h: "driver fresh = None" by (simp add: fresh_def)
  have f1: "fails quit_fails (calls fresh) Install = None"
    and f2: "fails quit_fails (calls fresh @ [Install]) (NewChrome (headless self0)) = None"
    by (simp_all add: quit_fails_def)
  note T = session_released_once [OF h, of quit_fails self0 "''newuser@example.com''"
      "''Project X''"]
  from T have r: "\<not> isl (fst ?run)" by auto
  from T f1 f2 obtain cs where
    cs: "calls (snd ?run) = calls fresh @ [Install, NewChrome (headless self0)] @ cs @ [Quit]"
      "list_all in_session cs"
    by blast
  from cs have "last (calls (snd ?run)) = Quit"
    "count_list (calls (snd ?run)) Quit = 1"
    by (simp_all add: fresh_def in_session_no_quit)
  with h f1 f2 r show ?thesis by blast
qed

subsection \<open>A workspace that is not found\<close>











subsection \<open>The CAPTCHA\<close>

named_theorems captcha_intros

lemma captcha_atI:
  "(\<And>s x s'. m s = (Inl x, s') \<Longrightarrow> isinstance x CaptchaDetectedException \<Longrightarrow> Q x s')
     \<Longrightarrow> captcha_at Q m"
  by (auto simp: captcha_at_def)

lemma captcha_atD:
  "captcha_at Q m \<Longrightarrow> m s = (Inl x, s') \<Longrightarrow> isinstance x CaptchaDetectedException \<Longrightarrow> Q x s'"
  by (auto simp: captcha_at_def)

lemma honestD: "honest B \<Longrightarrow> fails B h c = Some e \<Longrightarrow> \<not> isinstance e CaptchaDetectedException"
  by (auto simp: honest_def)

lemma captcha_at_ret [captcha_intros]: "captcha_at Q (ret x)"
  by (rule captcha_atI) simp

lemma captcha_at_sleep [captcha_intros]: "captcha_at Q (sleep d)"
  by (rule captcha_atI) simp

lemma captcha_at_raise [captcha_intros]:
  "\<not> isinstance e CaptchaDetectedException \<Longrightarrow> captcha_at Q (raise e)"
  by (rule captcha_atI) simp

lemma captcha_at_perform [captcha_intros]: "honest B \<Longrightarrow> captcha_at Q (perform B result c)"
  by (rule captcha_atI) (auto simp: perform_def split: option.splits dest: honestD)

lemma attribute_error_no_captcha [simp]:
  "\<not> isinstance (Exn AttributeError m) CaptchaDetectedException"
  by (simp add: isinstance_def issubclass_def)

lemma captcha_at_on_driver [captcha_intros]: "honest B \<Longrightarrow> captcha_at Q (on_driver B result c)"
  by (rule captcha_atI) (auto simp: on_driver_def perform_def split: option.splits dest: honestD)

lemma captcha_at_on_wait [captcha_intros]: "honest B \<Longrightarrow> captcha_at Q (on_wait B result c)"
  by (rule captcha_atI) (auto simp: on_wait_def perform_def split: option.splits dest: honestD)

lemma captcha_at_bindE [captcha_intros]:
  assumes "captcha_at Q m" "\<And>x. captcha_at Q (f x)"
  shows "captcha_at Q (bindE m f)"
proof (rule captcha_atI)
  fix s x s'
  assume run: "bindE m f s = (Inl x, s')" and c: "isinstance x CaptchaDetectedException"
  obtain r1 s1 where m: "m s = (r1, s1)" by (cases "m s")
  show "Q x s'"
  proof (cases r1)
    case (Inl e)
    with m run have "m s = (Inl x, s')" by (simp add: bindE_def)
    from captcha_atD [OF assms(1) this c] show ?thesis .
  next
    case (Inr y)
    with m run have "f y s1 = (Inl x, s')" by (simp add: bindE_def)
    from captcha_atD [OF assms(2) this c] show ?thesis .
  qed
qed

lemma captcha_at_thenE [captcha_intros]:
  "captcha_at Q m \<Longrightarrow> captcha_at Q n \<Longrightarrow> captcha_at Q (thenE m n)"
  unfolding thenE_def by (rule captcha_at_bindE)

lemma captcha_at_except [captcha_intros]:
  assumes "captcha_at Q m" "\<And>e. captcha_at Q (h e)"
  shows "captcha_at Q (except m c h)"
proof (rule captcha_atI)
  fix s x s'
  assume run: "except m c h s = (Inl x, s')" and c: "isinstance x CaptchaDetectedException"
  obtain r1 s1 where m: "m s = (r1, s1)" by (cases "m s")
  show "Q x s'"
  proof (cases r1)
    case (Inr y)
    with m run show ?thesis by (simp add: except_def tryE_def)
  next
    case (Inl e)
    show ?thesis
    proof (cases "isinstance e c")
      case True
      with Inl m run have "h e s1 = (Inl x, s')" by (simp add: except_def tryE_def)
      from captcha_atD [OF assms(2) this c] show ?thesis .
    next
      case False
      with Inl m run have "m s = (Inl x, s')" by (simp add: except_def tryE_def)
      from captcha_atD [OF assms(1) this c] show ?thesis .
    qed
  qed
qed

lemma captcha_at_if [captcha_intros]:
  "captcha_at Q m \<Longrightarrow> captcha_at Q n \<Longrightarrow> captcha_at Q (if b then m else n)"
  by simp

lemma captcha_at_retry_operation: "captcha_at Q (retry_operation self name operation)"
  by (rule captcha_atI) (auto dest: retry_operation_raises)

lemma captcha_at_safe_click [captcha_intros]: "captcha_at Q (safe_click B self e)"
  unfolding safe_click_def by (rule captcha_at_retry_operation)

lemma captcha_at_find_element [captcha_intros]:
  "honest B \<Longrightarrow> captcha_at Q (find_element B b v)"
  unfolding find_element_def by (rule captcha_at_on_driver)

lemma captcha_at_wait_and_find_element [captcha_intros]:
  "honest B \<Longrightarrow> captcha_at Q (wait_and_find_element B self b v timeout)"
  unfolding wait_and_find_element_def Let_def by (rule captcha_at_on_driver)

lemma captcha_at_still_on_login [captcha_intros]:
  "honest B \<Longrightarrow> captcha_at Q (still_on_login B)"
  unfolding still_on_login_def by (intro captcha_intros) simp_all























end
